theory Spec2Isabelle
  imports Complex_Main "HOL-Library.Word"
begin

unbundle bit_operations_syntax

section \<open>Errors\<close>

text \<open>
  Go errors are values.  The constructors name the error kinds the workload environment
  subsystem distinguishes; \<open>Wrapped\<close> is \<open>errors.Wrap\<close>/\<open>errors.WrapIf\<close> (a message
  around a cause).
\<close>

datatype error =
    ErrPathResolution
  | ErrNotFound
  | ErrContextCanceled
  | ErrEOF
  | ErrOther string
  | Wrapped string error

section \<open>Statistics: memory normalisation (environment/docker/stats_*.go)\<close>

text \<open>
  \<open>types.MemoryStats\<close> of the Docker API: \<open>Usage\<close>, \<open>Limit\<close> and
  \<open>PrivateWorkingSet\<close> are \<open>uint64\<close>, \<open>Stats\<close> is a \<open>map[string]uint64\<close>.
\<close>

record MemoryStats =
  Usage :: "64 word"
  Stats :: "string \<rightharpoonup> 64 word"
  Limit :: "64 word"
  PrivateWorkingSet :: "64 word"

text \<open>Go's \<open>m[k]\<close> on a \<open>map[string]uint64\<close>: the zero value when the key is absent.\<close>

definition map_index :: "(string \<rightharpoonup> 64 word) \<Rightarrow> string \<Rightarrow> 64 word" where
  "map_index m k = (case m k of None \<Rightarrow> 0 | Some v \<Rightarrow> v)"

text \<open>stats_linux.go, \<open>calculateDockerMemory\<close>; \<open>-\<close> on \<open>64 word\<close> wraps as \<open>uint64\<close> does.\<close>

definition calculateDockerMemory_linux :: "MemoryStats \<Rightarrow> 64 word" where
  "calculateDockerMemory_linux stats =
     (let fallthrough =
            (let v = map_index (Stats stats) ''inactive_file''
             in if v < Usage stats then Usage stats - v else Usage stats)
      in case Stats stats ''total_inactive_file'' of
           Some v \<Rightarrow> if v < Usage stats then Usage stats - v else fallthrough
         | None \<Rightarrow> fallthrough)"

text \<open>stats_windows.go, \<open>calculateDockerMemory\<close>.\<close>

definition calculateDockerMemory_windows :: "MemoryStats \<Rightarrow> 64 word" where
  "calculateDockerMemory_windows stats = PrivateWorkingSet stats"


section \<open>IEEE 754 double precision, as far as the statistics code uses it\<close>

text \<open>
  Every finite \<open>float64\<close> is a rational number, so a \<open>float64\<close> is modelled by the
  rational it denotes and every operation is the exact operation followed by rounding to
  the nearest number with a 53-bit significand, ties to even.  The exponent range is left
  unbounded: the statistics code only converts 64-bit counters, subtracts, divides by a
  positive difference and multiplies by a processor count, 100 and 1000, so every non-zero
  intermediate value has a magnitude between \<open>2^-64\<close> and \<open>2^130\<close>: no overflow, no
  subnormal, no NaN.
\<close>

type_synonym float64 = rat

text \<open>The number of binary digits of a positive integer.\<close>

function bitlen :: "int \<Rightarrow> int" where
  "bitlen n = (if n \<le> 0 then 0 else 1 + bitlen (n div 2))"
  by pat_completeness auto
termination
  by (relation "measure nat") auto

declare bitlen.simps [simp del]

definition pow2 :: "int \<Rightarrow> rat" where
  "pow2 e = (if 0 \<le> e then 2 ^ nat e else 1 / 2 ^ nat (- e))"

text \<open>The exponent \<open>e\<close> with \<open>2^e \<le> x < 2^(e+1)\<close>, for a positive \<open>x\<close>.\<close>

definition ilog2 :: "rat \<Rightarrow> int" where
  "ilog2 x =
     (let (p, q) = quotient_of x;
          d = bitlen p - bitlen q
      in if pow2 d \<le> x then d else d - 1)"

definition round_half_even :: "rat \<Rightarrow> int" where
  "round_half_even x =
     (let f = \<lfloor>x\<rfloor>; r = x - of_int f
      in if r < 1 / 2 then f
         else if 1 / 2 < r then f + 1
         else if even f then f else f + 1)"

definition f64_round :: "rat \<Rightarrow> float64" where
  "f64_round x =
     (if x = 0 then 0
      else let e = ilog2 \<bar>x\<bar>
           in sgn x * of_int (round_half_even (\<bar>x\<bar> * pow2 (52 - e))) * pow2 (e - 52))"

definition f64_of_u64 :: "64 word \<Rightarrow> float64" where
  "f64_of_u64 w = f64_round (of_int (uint w))"

definition f64_of_u32 :: "32 word \<Rightarrow> float64" where
  "f64_of_u32 w = f64_round (of_int (uint w))"

definition f64_of_len :: "nat \<Rightarrow> float64" where
  "f64_of_len n = f64_round (of_int (int n))"

definition f64_sub :: "float64 \<Rightarrow> float64 \<Rightarrow> float64" where
  "f64_sub a b = f64_round (a - b)"

definition f64_mul :: "float64 \<Rightarrow> float64 \<Rightarrow> float64" where
  "f64_mul a b = f64_round (a * b)"

text \<open>Division; the callers guard the divisor, which is never zero where this is used.\<close>

definition f64_div :: "float64 \<Rightarrow> float64 \<Rightarrow> float64" where
  "f64_div a b = f64_round (a / b)"

text \<open>\<open>math.Round\<close>: the nearest integer, halves away from zero.\<close>

definition math_Round :: "float64 \<Rightarrow> float64" where
  "math_Round x = sgn x * of_int \<lfloor>\<bar>x\<bar> + 1 / 2\<rfloor>"

section \<open>Time (package time)\<close>

text \<open>
  A \<open>time.Time\<close> is the number of nanoseconds since Go's zero time, an unbounded integer
  here; \<open>IsZero\<close> is equality with 0.  A \<open>time.Duration\<close> is an \<open>int64\<close> count of
  nanoseconds, written as an \<open>int\<close> within the \<open>int64\<close> range; \<open>Time.Sub\<close>
  saturates at the largest and smallest duration.
\<close>

type_synonym time = int
type_synonym duration = int

definition time_Sub :: "time \<Rightarrow> time \<Rightarrow> duration" where
  "time_Sub t u = max (- (2 ^ 63)) (min (2 ^ 63 - 1) (t - u))"

definition IsZero :: "time \<Rightarrow> bool" where
  "IsZero t = (t = 0)"

text \<open>Go's integer division truncates towards zero.\<close>

definition go_quot :: "int \<Rightarrow> int \<Rightarrow> int" where
  "go_quot a b = sgn a * sgn b * (\<bar>a\<bar> div \<bar>b\<bar>)"

definition Nanoseconds :: "duration \<Rightarrow> int" where
  "Nanoseconds d = d"

definition Milliseconds :: "duration \<Rightarrow> int" where
  "Milliseconds d = go_quot d 1000000"

section \<open>Statistics: CPU normalisation (environment/docker/stats_*.go)\<close>

text \<open>The fields of \<open>types.StatsJSON\<close> that the statistics code reads.\<close>

record CPUUsage =
  TotalUsage :: "64 word"
  PercpuUsage :: "64 word list"

record CPUStats =
  CPUUsage :: CPUUsage
  SystemUsage :: "64 word"
  OnlineCPUs :: "32 word"

record NetworkStats =
  RxBytes :: "64 word"
  TxBytes :: "64 word"

record StatsJSON =
  Read :: time
  PreRead :: time
  NumProcs :: "32 word"
  PreCPUStats :: CPUStats
  CPUStats :: CPUStats
  MemoryStats :: MemoryStats
  Networks :: "(string \<times> NetworkStats) list"

text \<open>stats_linux.go, \<open>calculateDockerAbsoluteCpu\<close>, with its local variables.\<close>

definition cpuDelta :: "StatsJSON \<Rightarrow> float64" where
  "cpuDelta v =
     f64_sub (f64_of_u64 (TotalUsage (CPUUsage (CPUStats v))))
             (f64_of_u64 (TotalUsage (CPUUsage (PreCPUStats v))))"

definition systemDelta :: "StatsJSON \<Rightarrow> float64" where
  "systemDelta v =
     f64_sub (f64_of_u64 (SystemUsage (CPUStats v))) (f64_of_u64 (SystemUsage (PreCPUStats v)))"

definition cpus :: "StatsJSON \<Rightarrow> float64" where
  "cpus v =
     (let c = f64_of_u32 (OnlineCPUs (CPUStats v))
      in if c = 0 then f64_of_len (length (PercpuUsage (CPUUsage (CPUStats v)))) else c)"

definition calculateDockerAbsoluteCpu_linux :: "StatsJSON \<Rightarrow> float64" where
  "calculateDockerAbsoluteCpu_linux v =
     (let percent =
            (if 0 < systemDelta v \<and> 0 < cpuDelta v
             then f64_mul (f64_mul (f64_div (cpuDelta v) (systemDelta v)) (cpus v)) 100
             else 0)
      in f64_div (math_Round (f64_mul percent 1000)) 1000)"

text \<open>
  stats_windows.go, \<open>calculateDockerAbsoluteCpu\<close>.  \<open>uint64(d.Nanoseconds())\<close>
  reinterprets the \<open>int64\<close> as unsigned (\<open>word_of_int\<close>); \<open>/=\<close> and \<open>*=\<close> are
  unsigned 64-bit division and wrapping multiplication; \<open>intervalsUsed\<close> is a wrapping
  \<open>uint64\<close> subtraction.
\<close>

definition possIntervals :: "StatsJSON \<Rightarrow> 64 word" where
  "possIntervals v =
     (word_of_int (Nanoseconds (time_Sub (Read v) (PreRead v))) div 100) * ucast (NumProcs v)"

definition intervalsUsed :: "StatsJSON \<Rightarrow> 64 word" where
  "intervalsUsed v =
     TotalUsage (CPUUsage (CPUStats v)) - TotalUsage (CPUUsage (PreCPUStats v))"

definition calculateDockerAbsoluteCpu_windows :: "StatsJSON \<Rightarrow> float64" where
  "calculateDockerAbsoluteCpu_windows v =
     (if 0 < possIntervals v
      then f64_mul (f64_div (f64_of_u64 (intervalsUsed v)) (f64_of_u64 (possIntervals v))) 100
      else 0)"

text \<open>
  Three samples of the statistics stream.  In \<open>counter_reset_sample\<close> the container's
  CPU counter is smaller than in the previous reading (the counter restarted), one second
  and two processors apart; in \<open>clock_step_sample\<close> the reading is stamped 1000 ns
  before the previous one; in \<open>stalled_sample\<close> both readings carry the same timestamp.
\<close>

definition counter_reset_sample :: StatsJSON where
  "counter_reset_sample =
     \<lparr>Read = 2000000000, PreRead = 1000000000, NumProcs = 2,
      PreCPUStats = \<lparr>CPUUsage = \<lparr>TotalUsage = 5000000, PercpuUsage = []\<rparr>,
                     SystemUsage = 1000, OnlineCPUs = 2\<rparr>,
      CPUStats = \<lparr>CPUUsage = \<lparr>TotalUsage = 1000000, PercpuUsage = []\<rparr>,
                  SystemUsage = 4000, OnlineCPUs = 2\<rparr>,
      MemoryStats = \<lparr>Usage = 0, Stats = Map.empty, Limit = 0, PrivateWorkingSet = 0\<rparr>,
      Networks = []\<rparr>"

definition clock_step_sample :: StatsJSON where
  "clock_step_sample =
     \<lparr>Read = 2000000000, PreRead = 2000001000, NumProcs = 1,
      PreCPUStats = \<lparr>CPUUsage = \<lparr>TotalUsage = 5000000, PercpuUsage = []\<rparr>,
                     SystemUsage = 1000, OnlineCPUs = 1\<rparr>,
      CPUStats = \<lparr>CPUUsage = \<lparr>TotalUsage = 5000010, PercpuUsage = []\<rparr>,
                  SystemUsage = 4000, OnlineCPUs = 1\<rparr>,
      MemoryStats = \<lparr>Usage = 0, Stats = Map.empty, Limit = 0, PrivateWorkingSet = 0\<rparr>,
      Networks = []\<rparr>"

definition stalled_sample :: StatsJSON where
  "stalled_sample =
     \<lparr>Read = 2000000000, PreRead = 2000000000, NumProcs = 2,
      PreCPUStats = \<lparr>CPUUsage = \<lparr>TotalUsage = 5000000, PercpuUsage = []\<rparr>,
                     SystemUsage = 1000, OnlineCPUs = 2\<rparr>,
      CPUStats = \<lparr>CPUUsage = \<lparr>TotalUsage = 7000000, PercpuUsage = []\<rparr>,
                  SystemUsage = 4000, OnlineCPUs = 2\<rparr>,
      MemoryStats = \<lparr>Usage = 0, Stats = Map.empty, Limit = 0, PrivateWorkingSet = 0\<rparr>,
      Networks = []\<rparr>"

section \<open>Network bootstrap (environment/docker.go, createDockerNetwork)\<close>

text \<open>
  Modelled from the spec: the type \<open>dockerNetworkInterfaces\<close> of the \<open>Interfaces\<close> field
  is declared elsewhere in the repository.  The spec has dual-stack subnet/gateway pairs,
  and the code reads \<open>V4\<close> and \<open>V6\<close>, each with a \<open>Subnet\<close> and a \<open>Gateway\<close>.
\<close>

record dockerNetworkInterface =
  Subnet :: string
  Gateway :: string

record dockerNetworkInterfaces =
  V4 :: dockerNetworkInterface
  V6 :: dockerNetworkInterface

text \<open>\<open>config.DockerNetworkConfiguration\<close>.\<close>

record DockerNetworkConfiguration =
  Interface :: string
  Dns :: "string list"
  Name :: string
  ISPN :: bool
  Driver :: string
  Mode :: string
  IsInternal :: bool
  EnableICC :: bool
  Interfaces :: dockerNetworkInterfaces

text \<open>The Docker API types of the two network calls, with the fields the code fills or reads.\<close>

record IPAMConfig =
  ipam_Subnet :: string
  ipam_Gateway :: string

record IPAM =
  ipam_Driver :: string
  ipam_Config :: "IPAMConfig list"

record NetworkCreate =
  nc_Driver :: string
  nc_EnableIPv6 :: bool
  nc_Internal :: bool
  nc_IPAM :: IPAM
  nc_Options :: "(string \<times> string) list"

record NetworkResource =
  nr_Name :: string
  nr_Driver :: string

text \<open>
  The container runtime, as far as network bootstrap observes it: the networks it has by
  name, the create requests it has received, and the failure (if any) that it answers an
  inspect or a create with.
\<close>

record daemon =
  networks :: "string \<rightharpoonup> NetworkResource"
  create_calls :: "(string \<times> NetworkCreate) list"
  inspect_fault :: "error option"
  create_fault :: "error option"

definition zero_NetworkResource :: NetworkResource where
  "zero_NetworkResource = \<lparr>nr_Name = [], nr_Driver = []\<rparr>"

text \<open>
  \<open>client.NetworkInspect\<close>: a Go pair of the resource and the error.  With an error the
  resource is the zero value; an empty name is answered "not found" by the client itself.
\<close>

definition NetworkInspect :: "daemon \<Rightarrow> string \<Rightarrow> NetworkResource \<times> error option" where
  "NetworkInspect d name =
     (if name = [] then (zero_NetworkResource, Some ErrNotFound)
      else case inspect_fault d of
             Some e \<Rightarrow> (zero_NetworkResource, Some e)
           | None \<Rightarrow>
               (case networks d name of
                  None \<Rightarrow> (zero_NetworkResource, Some ErrNotFound)
                | Some r \<Rightarrow> (r, None)))"

text \<open>
  \<open>client.NetworkCreate\<close>: every request is recorded; it fails with the injected fault
  or when the name is taken, and otherwise the network exists afterwards with the
  requested driver.
\<close>

definition NetworkCreate_call :: "daemon \<Rightarrow> string \<Rightarrow> NetworkCreate \<Rightarrow> error option \<times> daemon" where
  "NetworkCreate_call d name req =
     (let d1 = d\<lparr>create_calls := create_calls d @ [(name, req)]\<rparr>
      in case create_fault d of
           Some e \<Rightarrow> (Some e, d1)
         | None \<Rightarrow>
             (case networks d name of
                Some r \<Rightarrow> (Some (ErrOther ''network with this name already exists''), d1)
              | None \<Rightarrow>
                  (None, d1\<lparr>networks := (networks d)(name \<mapsto> \<lparr>nr_Name = name, nr_Driver = nc_Driver req\<rparr>)\<rparr>)))"

text \<open>\<open>client.IsErrNotFound\<close> looks through wrapped errors.\<close>

fun IsErrNotFound :: "error \<Rightarrow> bool" where
  "IsErrNotFound ErrNotFound = True"
| "IsErrNotFound (Wrapped m e) = IsErrNotFound e"
| "IsErrNotFound e = False"

text \<open>
  The global configuration (\<open>config.Get\<close> reads a copy, \<open>config.Update\<close> runs a callback
  on it under the lock) and the runtime, threaded through the calls.
\<close>

record world =
  cfg :: DockerNetworkConfiguration
  dockerd :: daemon

definition FormatBool :: "bool \<Rightarrow> string" where
  "FormatBool b = (if b then ''true'' else ''false'')"

text \<open>\<open>createDockerNetwork\<close>, the variant with \<open>EnableIPv6\<close> and the bridge options.\<close>

definition createDockerNetwork_linux :: "world \<Rightarrow> error option \<times> world" where
  "createDockerNetwork_linux w =
     (let nw = cfg w;
          (err, d) = NetworkCreate_call (dockerd w) (Name nw)
            \<lparr>nc_Driver = Driver nw,
             nc_EnableIPv6 = True,
             nc_Internal = IsInternal nw,
             nc_IPAM = \<lparr>ipam_Driver = [],
                        ipam_Config =
                          [\<lparr>ipam_Subnet = Subnet (V4 (Interfaces nw)),
                            ipam_Gateway = Gateway (V4 (Interfaces nw))\<rparr>,
                           \<lparr>ipam_Subnet = Subnet (V6 (Interfaces nw)),
                            ipam_Gateway = Gateway (V6 (Interfaces nw))\<rparr>]\<rparr>,
             nc_Options =
               [(''encryption'', ''false''),
                (''com.docker.network.bridge.default_bridge'', ''false''),
                (''com.docker.network.bridge.enable_icc'', FormatBool (EnableICC nw)),
                (''com.docker.network.bridge.enable_ip_masquerade'', ''true''),
                (''com.docker.network.bridge.host_binding_ipv4'', ''0.0.0.0''),
                (''com.docker.network.bridge.name'', ''pterodactyl0''),
                (''com.docker.network.driver.mtu'', ''1500'')]\<rparr>;
          w1 = w\<lparr>dockerd := d\<rparr>
      in case err of
           Some e \<Rightarrow> (Some e, w1)
         | None \<Rightarrow>
             if Driver nw \<noteq> ''host'' \<and> Driver nw \<noteq> ''overlay'' \<and> Driver nw \<noteq> ''weavemesh''
             then (None, w1\<lparr>cfg := (cfg w1)\<lparr>Interface := Gateway (V4 (Interfaces (cfg w1)))\<rparr>\<rparr>)
             else (None, w1))"

text \<open>\<open>createDockerNetwork\<close>, the variant with the \<open>windows\<close> IPAM driver.\<close>

definition createDockerNetwork_windows :: "world \<Rightarrow> error option \<times> world" where
  "createDockerNetwork_windows w =
     (let nw = cfg w;
          (err, d) = NetworkCreate_call (dockerd w) (Name nw)
            \<lparr>nc_Driver = Driver nw,
             nc_EnableIPv6 = False,
             nc_Internal = IsInternal nw,
             nc_IPAM = \<lparr>ipam_Driver = ''windows'',
                        ipam_Config =
                          [\<lparr>ipam_Subnet = Subnet (V4 (Interfaces nw)),
                            ipam_Gateway = Gateway (V4 (Interfaces nw))\<rparr>,
                           \<lparr>ipam_Subnet = Subnet (V6 (Interfaces nw)),
                            ipam_Gateway = Gateway (V6 (Interfaces nw))\<rparr>]\<rparr>,
             nc_Options = [(''com.docker.network.windowsshim.networkname'', ''pterodactyl0'')]\<rparr>;
          w1 = w\<lparr>dockerd := d\<rparr>
      in case err of
           Some e \<Rightarrow> (Some e, w1)
         | None \<Rightarrow>
             if Driver nw \<noteq> ''host'' \<and> Driver nw \<noteq> ''overlay'' \<and> Driver nw \<noteq> ''weavemesh''
             then (None, w1\<lparr>cfg := (cfg w1)\<lparr>Interface := Gateway (V4 (Interfaces (cfg w1)))\<rparr>\<rparr>)
             else (None, w1))"

text \<open>The callback that \<open>ConfigureDocker\<close> hands to \<open>config.Update\<close>.\<close>

definition update_network :: "NetworkResource \<Rightarrow> DockerNetworkConfiguration \<Rightarrow> DockerNetworkConfiguration" where
  "update_network resource c =
     (let c1 = c\<lparr>Driver := nr_Driver resource\<rparr>
      in if Driver c1 = ''host'' then c1\<lparr>Interface := ''127.0.0.1'', ISPN := False\<rparr>
         else if Driver c1 = ''overlay'' \<or> Driver c1 = ''weavemesh''
              then c1\<lparr>Interface := [], ISPN := True\<rparr>
         else c1\<lparr>ISPN := False\<rparr>)"

text \<open>
  \<open>ConfigureDocker\<close>.  The first argument is the platform's \<open>createDockerNetwork\<close>, the
  second the error of \<open>Docker()\<close> (\<open>None\<close> when the client is there).
\<close>

definition ConfigureDocker ::
  "(world \<Rightarrow> error option \<times> world) \<Rightarrow> error option \<Rightarrow> world \<Rightarrow> error option \<times> world" where
  "ConfigureDocker createDockerNetwork client_err w =
     (case client_err of
        Some e \<Rightarrow> (Some (Wrapped ''environment/docker: could not create client'' e), w)
      | None \<Rightarrow>
          (let nw = cfg w;
               (resource, err) = NetworkInspect (dockerd w) (Name nw)
           in case err of
                None \<Rightarrow> (None, w\<lparr>cfg := update_network resource (cfg w)\<rparr>)
              | Some e \<Rightarrow>
                  if IsErrNotFound e
                  then (case createDockerNetwork w of
                          (Some e', w1) \<Rightarrow> (Some e', w1)
                        | (None, w1) \<Rightarrow> (None, w1\<lparr>cfg := update_network resource (cfg w1)\<rparr>))
                  else (Some e, w)))"

text \<open>A configuration with the defaults of the struct tags, and a runtime without networks.\<close>

definition default_network :: DockerNetworkConfiguration where
  "default_network =
     \<lparr>Interface = ''172.18.0.1'', Dns = [''1.1.1.1'', ''1.0.0.1''], Name = ''pterodactyl_nw'',
      ISPN = False, Driver = ''nat'', Mode = ''pterodactyl_nw'', IsInternal = False,
      EnableICC = True,
      Interfaces = \<lparr>V4 = \<lparr>Subnet = ''172.18.0.0/16'', Gateway = ''172.18.0.1''\<rparr>,
                     V6 = \<lparr>Subnet = ''fdba:17c8:6c94::/64'', Gateway = ''fdba:17c8:6c94::1011''\<rparr>\<rparr>\<rparr>"

definition fresh_daemon :: daemon where
  "fresh_daemon =
     \<lparr>networks = Map.empty, create_calls = [], inspect_fault = None, create_fault = None\<rparr>"

text \<open>The two builds of \<open>createDockerNetwork\<close>.\<close>

definition platform_create :: "(world \<Rightarrow> error option \<times> world) \<Rightarrow> bool" where
  "platform_create f \<longleftrightarrow> f = createDockerNetwork_linux \<or> f = createDockerNetwork_windows"

definition fresh_world :: world where
  "fresh_world = \<lparr>cfg = default_network, dockerd = fresh_daemon\<rparr>"

text \<open>A world whose runtime already has the configured network, with the given driver.\<close>

definition found_world :: "string \<Rightarrow> world" where
  "found_world driver =
     \<lparr>cfg = default_network,
      dockerd = fresh_daemon
        \<lparr>networks := [''pterodactyl_nw'' \<mapsto> \<lparr>nr_Name = ''pterodactyl_nw'', nr_Driver = driver\<rparr>]\<rparr>\<rparr>"

section \<open>Resource limits (environment/settings_linux.go and its sibling build)\<close>

text \<open>
  Modelled from the spec: the struct \<open>environment.Limits\<close> is declared elsewhere in the
  repository.  The spec has a memory limit in MB, a swap value (\<open>-1\<close> unlimited, 0
  disabled, otherwise MB), a CPU limit in percent of one core, a core affinity set, an IO
  weight and the OOM-kill-disable flag; these are the fields that \<open>AsContainerResources\<close>
  reads.
\<close>

record Limits =
  MemoryLimit :: int
  Swap :: int
  CpuLimit :: int
  IoWeight :: "16 word"
  Threads :: string
  OOMDisabled :: bool

text \<open>
  The fields of \<open>container.Resources\<close> that \<open>AsContainerResources\<close> fills.  A Go field
  that a composite literal leaves out has its zero value: 0, the empty string, or \<open>nil\<close>
  (\<open>None\<close>) for a pointer.
\<close>

record Resources =
  res_Memory :: int
  res_MemoryReservation :: int
  res_MemorySwap :: int
  res_CPUQuota :: int
  res_CPUPeriod :: int
  res_CPUShares :: int
  res_BlkioWeight :: "16 word"
  res_OomKillDisable :: "bool option"
  res_CpusetCpus :: string
  res_PidsLimit :: "int option"

text \<open>\<open>int64\<close> arithmetic wraps around.\<close>

definition wrap64 :: "int \<Rightarrow> int" where
  "wrap64 x = (x + 2 ^ 63) mod 2 ^ 64 - 2 ^ 63"

text \<open>
  Modelled from the spec: the methods \<open>BoundedMemoryLimit\<close>, \<open>ConvertedSwap\<close> and
  \<open>ConvertedCpuLimit\<close> of \<open>Limits\<close> are called by \<open>AsContainerResources\<close> but are
  declared elsewhere in the repository.  The spec gives: memory bytes = MB \<open>\<times>\<close> 1,000,000;
  swap bytes = memory + swap MB \<open>\<times>\<close> 1,000,000 when swap \<open>\<ge>\<close> 0, or a sentinel meaning
  "unlimited" when swap \<open><\<close> 0; CPU quota = (CPU percent \<open>\<div>\<close> 100) \<open>\<times>\<close> the fixed period
  of 100,000.  The sentinel is the runtime's \<open>-1\<close>.  The quotient is exact: the division
  is taken after the multiplication, as the spec's own scenario (150 percent gives
  150,000) requires.
\<close>

definition swap_unlimited :: int where
  "swap_unlimited = - 1"

definition BoundedMemoryLimit :: "Limits \<Rightarrow> int" where
  "BoundedMemoryLimit l = MemoryLimit l * 1000000"

definition ConvertedSwap :: "Limits \<Rightarrow> int" where
  "ConvertedSwap l =
     (if Swap l < 0 then swap_unlimited else BoundedMemoryLimit l + Swap l * 1000000)"

definition ConvertedCpuLimit :: "Limits \<Rightarrow> int" where
  "ConvertedCpuLimit l = (CpuLimit l * 100000) div 100"

text \<open>
  settings_linux.go, \<open>AsContainerResources\<close>; \<open>pids\<close> is the result of
  \<open>l.ProcessLimit()\<close>, which reads the configuration.
\<close>

definition AsContainerResources_linux :: "int \<Rightarrow> Limits \<Rightarrow> Resources" where
  "AsContainerResources_linux pids l =
     \<lparr>res_Memory = BoundedMemoryLimit l,
      res_MemoryReservation = wrap64 (MemoryLimit l * 1000000),
      res_MemorySwap = ConvertedSwap l,
      res_CPUQuota = ConvertedCpuLimit l,
      res_CPUPeriod = 100000,
      res_CPUShares = 1024,
      res_BlkioWeight = IoWeight l,
      res_OomKillDisable = Some (OOMDisabled l),
      res_CpusetCpus = Threads l,
      res_PidsLimit = Some pids\<rparr>"

text \<open>The sibling build of \<open>AsContainerResources\<close>: four fields, the others left out.\<close>

definition AsContainerResources_windows :: "Limits \<Rightarrow> Resources" where
  "AsContainerResources_windows l =
     \<lparr>res_Memory = BoundedMemoryLimit l,
      res_MemoryReservation = 0,
      res_MemorySwap = 0,
      res_CPUQuota = ConvertedCpuLimit l,
      res_CPUPeriod = 0,
      res_CPUShares = 1024,
      res_BlkioWeight = 0,
      res_OomKillDisable = None,
      res_CpusetCpus = Threads l,
      res_PidsLimit = None\<rparr>"

text \<open>The limits of the spec's scenario: 512 MB of memory, swap \<open>-1\<close>, 150 percent CPU.\<close>

definition scenario_limits :: Limits where
  "scenario_limits =
     \<lparr>MemoryLimit = 512, Swap = - 1, CpuLimit = 150, IoWeight = 500, Threads = [],
      OOMDisabled = False\<rparr>"

section \<open>Uptime and the statistics poller\<close>

text \<open>
  Modelled from the spec: \<open>environment.ProcessState\<close> and its constants are declared
  elsewhere in the repository; the spec has the four states offline, starting, running
  and stopping.
\<close>

datatype ProcessState = ProcessOfflineState | ProcessStartingState | ProcessRunningState
  | ProcessStoppingState

text \<open>The container state that \<open>ContainerInspect\<close> reports, as far as \<open>Uptime\<close> reads it.\<close>

record ContainerState =
  Running :: bool
  StartedAt :: string

text \<open>
  Modelled from the spec: the sample that the poller publishes, \<open>environment.Stats\<close>,
  is declared elsewhere in the repository.  The spec has the uptime in milliseconds, the
  memory usage and limit in bytes, the CPU percent and the network bytes received and
  sent; these are the fields that \<open>pollResources\<close> fills.
\<close>

record environment_NetworkStats =
  env_RxBytes :: "64 word"
  env_TxBytes :: "64 word"

record environment_Stats =
  st_Uptime :: int
  st_Memory :: "64 word"
  st_MemoryLimit :: "64 word"
  st_CpuAbsolute :: float64
  st_Network :: environment_NetworkStats

text \<open>
  \<open>Uptime\<close>.  \<open>ins\<close> is the result of \<open>e.ContainerInspect(ctx)\<close>, \<open>parse\<close> is
  \<open>time.Parse(time.RFC3339, _)\<close> and \<open>now\<close> the wall clock that \<open>time.Since\<close> reads.
  Go returns the pair \<open>(0, err)\<close> on an error: \<open>Inl err\<close> here.
\<close>

definition Uptime ::
  "(error + ContainerState) \<Rightarrow> (string \<Rightarrow> error + time) \<Rightarrow> time \<Rightarrow> error + int" where
  "Uptime ins parse now =
     (case ins of
        Inl err \<Rightarrow> Inl (Wrapped ''environment: could not inspect container'' err)
      | Inr c \<Rightarrow>
          if \<not> Running c then Inr 0
          else (case parse (StartedAt c) of
                  Inl err \<Rightarrow> Inl (Wrapped ''environment: failed to parse container start time'' err)
                | Inr started \<Rightarrow> Inr (Milliseconds (time_Sub now started))))"

text \<open>\<open>errors.Is(err, context.Canceled)\<close> looks through wrapped errors.\<close>

fun is_Canceled :: "error \<Rightarrow> bool" where
  "is_Canceled ErrContextCanceled = True"
| "is_Canceled (Wrapped m e) = is_Canceled e"
| "is_Canceled e = False"

text \<open>
  One turn of the polling loop, as the loop meets it: whether the context is done, what
  \<open>dec.Decode\<close> returns, and what \<open>e.st.Load()\<close> returns after the decode.  The loop
  reads the fields in this order and stops reading at the first that ends it.
\<close>

datatype decode_result = Decoded StatsJSON | DecodeFailed error

record tick =
  ctx_done :: "error option"
  decode :: decode_result
  st_load :: ProcessState

text \<open>
  What a run of the poller leaves behind: how it ended (\<open>Returned err\<close>, or \<open>Waiting\<close>
  when the turns given are used up and the loop is blocked in the next decode), the
  samples published on the resource topic, oldest first, and the warnings logged.
\<close>

datatype outcome = Returned "error option" | Waiting

record poll_result =
  ended :: outcome
  published :: "environment_Stats list"
  warnings :: "(string \<times> error) list"

text \<open>The body of the loop after a successful decode and the state check.\<close>

definition next_uptime :: "int \<Rightarrow> StatsJSON \<Rightarrow> int" where
  "next_uptime uptime v =
     (if \<not> IsZero (PreRead v) then uptime + Milliseconds (time_Sub (Read v) (PreRead v))
      else uptime)"

definition sum_networks :: "(string \<times> NetworkStats) list \<Rightarrow> environment_NetworkStats" where
  "sum_networks nws =
     fold (\<lambda>(name, nw) acc. \<lparr>env_RxBytes = env_RxBytes acc + RxBytes nw,
                              env_TxBytes = env_TxBytes acc + TxBytes nw\<rparr>)
          nws \<lparr>env_RxBytes = 0, env_TxBytes = 0\<rparr>"

definition make_stats ::
  "(MemoryStats \<Rightarrow> 64 word) \<Rightarrow> (StatsJSON \<Rightarrow> float64) \<Rightarrow> int \<Rightarrow> StatsJSON \<Rightarrow> environment_Stats" where
  "make_stats calculateDockerMemory calculateDockerAbsoluteCpu uptime v =
     \<lparr>st_Uptime = uptime,
      st_Memory = calculateDockerMemory (MemoryStats v),
      st_MemoryLimit = Limit (MemoryStats v),
      st_CpuAbsolute = calculateDockerAbsoluteCpu v,
      st_Network = sum_networks (Networks v)\<rparr>"

text \<open>
  The \<open>for\<close> loop of \<open>pollResources\<close>, on the turns it is given.  The two functions are
  the platform's \<open>calculateDockerMemory\<close> and \<open>calculateDockerAbsoluteCpu\<close>.
\<close>

fun poll_loop ::
  "(MemoryStats \<Rightarrow> 64 word) \<Rightarrow> (StatsJSON \<Rightarrow> float64) \<Rightarrow> int \<Rightarrow> tick list \<Rightarrow> poll_result" where
  "poll_loop cm cc uptime [] = \<lparr>ended = Waiting, published = [], warnings = []\<rparr>"
| "poll_loop cm cc uptime (t # ts) =
     (case ctx_done t of
        Some err \<Rightarrow> \<lparr>ended = Returned (Some err), published = [], warnings = []\<rparr>
      | None \<Rightarrow>
          (case decode t of
             DecodeFailed err \<Rightarrow>
               \<lparr>ended = Returned None, published = [],
                warnings =
                  (if err \<noteq> ErrEOF \<and> \<not> is_Canceled err
                   then [(''error while processing Docker stats output for container'', err)]
                   else [])\<rparr>
           | Decoded v \<Rightarrow>
               if st_load t = ProcessOfflineState
               then \<lparr>ended = Returned None, published = [], warnings = []\<rparr>
               else (let uptime1 = next_uptime uptime v;
                         r = poll_loop cm cc uptime1 ts
                     in r\<lparr>published := make_stats cm cc uptime1 v # published r\<rparr>)))"

text \<open>
  \<open>pollResources\<close>.  \<open>st0\<close> is the state loaded on entry, \<open>stream\<close> the error of
  \<open>ContainerStats\<close> (\<open>None\<close> when the stream is attached); \<open>ins\<close>, \<open>parse\<close> and
  \<open>now\<close> are what \<open>Uptime\<close> reads.
\<close>

definition pollResources ::
  "(MemoryStats \<Rightarrow> 64 word) \<Rightarrow> (StatsJSON \<Rightarrow> float64) \<Rightarrow> ProcessState \<Rightarrow> error option \<Rightarrow>
   (error + ContainerState) \<Rightarrow> (string \<Rightarrow> error + time) \<Rightarrow> time \<Rightarrow> tick list \<Rightarrow> poll_result" where
  "pollResources cm cc st0 stream ins parse now ticks =
     (if st0 = ProcessOfflineState
      then \<lparr>ended = Returned (Some (ErrOther ''cannot enable resource polling on a stopped server'')),
            published = [], warnings = []\<rparr>
      else case stream of
             Some err \<Rightarrow> \<lparr>ended = Returned (Some err), published = [], warnings = []\<rparr>
           | None \<Rightarrow>
               (case Uptime ins parse now of
                  Inl err \<Rightarrow>
                    (let r = poll_loop cm cc 0 ticks
                     in r\<lparr>warnings := (''failed to calculate container uptime'', err) # warnings r\<rparr>)
                | Inr uptime \<Rightarrow> poll_loop cm cc uptime ticks))"

text \<open>A turn that ends nothing by itself: the context is live and a sample is decoded.\<close>

definition sample_tick :: "StatsJSON \<Rightarrow> ProcessState \<Rightarrow> tick" where
  "sample_tick v st = \<lparr>ctx_done = None, decode = Decoded v, st_load = st\<rparr>"

text \<open>The turns before the first one at which the loaded state is offline.\<close>

definition before_offline :: "tick list \<Rightarrow> tick list" where
  "before_offline ticks = takeWhile (\<lambda>t. st_load t \<noteq> ProcessOfflineState) ticks"

text \<open>
  Three turns of a stream: a sample while running, a sample decoded after the state has
  become offline, and one more sample that the runtime would still deliver.
\<close>

definition stop_mid_stream :: "tick list" where
  "stop_mid_stream =
     [sample_tick stalled_sample ProcessRunningState,
      sample_tick counter_reset_sample ProcessOfflineState,
      sample_tick stalled_sample ProcessRunningState]"

text \<open>Inspect results of a stopped and of a running container, and two timestamp parsers.\<close>

definition stopped_container :: "error + ContainerState" where
  "stopped_container = Inr \<lparr>Running = False, StartedAt = ''0001-01-01T00:00:00Z''\<rparr>"

definition running_container :: "error + ContainerState" where
  "running_container = Inr \<lparr>Running = True, StartedAt = ''0001-01-01T00:00:01Z''\<rparr>"

definition parse_ok :: "string \<Rightarrow> error + time" where
  "parse_ok s = Inr 1000000000"

definition parse_fails :: "string \<Rightarrow> error + time" where
  "parse_fails s = Inl (ErrOther ''parsing time: cannot parse'')"

section \<open>The file tree and the directory walkers\<close>

text \<open>
  A path is its list of components.  A file system entry is a regular file with its size,
  a directory with its entries in the order the walker reads them, or a symbolic link:
  the size that \<open>Lstat\<close> reports for the link itself, whether the mode of the link also
  carries the directory bit (the walker's documentation allows both bits on Windows), and
  what the link resolves to (\<open>None\<close> for a dangling link).  Sizes are \<open>int64\<close>.
\<close>

type_synonym path = "string list"

datatype node =
    File "64 word"
  | Symlink "64 word" bool "node option"
  | Dir "(string \<times> node) list"

fun IsSymlink :: "node \<Rightarrow> bool" where
  "IsSymlink (Symlink sz d t) = True"
| "IsSymlink n = False"

fun IsDir :: "node \<Rightarrow> bool" where
  "IsDir (Dir cs) = True"
| "IsDir (Symlink sz d t) = d"
| "IsDir (File sz) = False"

text \<open>The size that \<open>Lstat\<close> reports; the walkers below never read it for a directory.\<close>

fun lstat_Size :: "node \<Rightarrow> 64 word" where
  "lstat_Size (File sz) = sz"
| "lstat_Size (Symlink sz d t) = sz"
| "lstat_Size (Dir cs) = 0"

text \<open>What a path names once links are followed (\<open>os.Stat\<close>, and reading a directory).\<close>

fun resolve :: "node \<Rightarrow> node option" where
  "resolve (Symlink sz d None) = None"
| "resolve (Symlink sz d (Some t)) = resolve t"
| "resolve n = Some n"

definition entries_of :: "node \<Rightarrow> (string \<times> node) list option" where
  "entries_of n = (case resolve n of Some (Dir cs) \<Rightarrow> Some cs | _ \<Rightarrow> None)"

text \<open>
  The walker of package godirwalk.  A callback returns \<open>nil\<close>, \<open>SkipThis\<close> or an
  error; the walker calls it on an entry before anything else, does not look into a
  symbolic link unless \<open>FollowSymbolicLinks\<close> is set, and stops at the first error.  The
  callback's state is threaded through.
\<close>

datatype cb_result = CbNil | CbSkipThis | CbErr error

datatype walk_result = WNil | WSkipThis | WErr error

function walk ::
    "bool \<Rightarrow> (path \<Rightarrow> node \<Rightarrow> 's \<Rightarrow> cb_result \<times> 's) \<Rightarrow> path \<Rightarrow> node \<Rightarrow> 's \<Rightarrow> walk_result \<times> 's"
  and walk_children ::
    "bool \<Rightarrow> (path \<Rightarrow> node \<Rightarrow> 's \<Rightarrow> cb_result \<times> 's) \<Rightarrow> path \<Rightarrow> (string \<times> node) list \<Rightarrow> 's
       \<Rightarrow> walk_result \<times> 's" where
  "walk follow cb p n s =
     (case cb p n s of
        (CbSkipThis, s1) \<Rightarrow> (WSkipThis, s1)
      | (CbErr err, s1) \<Rightarrow> (WErr err, s1)
      | (CbNil, s1) \<Rightarrow>
          if IsSymlink n \<and> \<not> follow then (WNil, s1)
          else if \<not> IsSymlink n \<and> \<not> IsDir n then (WNil, s1)
          else (case entries_of n of
                  None \<Rightarrow>
                    if resolve n = None then (WErr (ErrOther ''stat: no such file or directory''), s1)
                    else (WNil, s1)
                | Some cs \<Rightarrow> walk_children follow cb p cs s1))"
| "walk_children follow cb p [] s = (WNil, s)"
| "walk_children follow cb p (c # cs) s =
     (case walk follow cb (p @ [fst c]) (snd c) s of
        (WErr err, s1) \<Rightarrow> (WErr err, s1)
      | (r, s1) \<Rightarrow> walk_children follow cb p cs s1)"
  by pat_completeness auto
termination
proof -
  have r: "size m \<le> size n" if "resolve n = Some m" for n m :: node
    using that by (induction n rule: resolve.induct) auto
  have e: "size_list (size_prod (\<lambda>x. 0) size) cs < size n" if "entries_of n = Some cs" for n cs
    using that by (auto simp: entries_of_def split: option.splits node.splits dest!: r)
  show ?thesis
    by (relation "measure (\<lambda>x. case x of
          Inl (follow, cb, p, n, s) \<Rightarrow> 2 * size n
        | Inr (follow, cb, p, cs, s) \<Rightarrow> 2 * size_list (size_prod (\<lambda>x. 0) size) cs + 1)")
       (auto dest!: e simp: less_Suc_eq_le)
qed

declare walk.simps [simp del]

text \<open>
  \<open>godirwalk.Walk\<close>: the root must be a directory (\<open>Lstat\<close> unless links are followed);
  a \<open>SkipThis\<close> from the root is no error.
\<close>

definition Walk ::
  "bool \<Rightarrow> (path \<Rightarrow> node \<Rightarrow> 's \<Rightarrow> cb_result \<times> 's) \<Rightarrow> (path \<rightharpoonup> node) \<Rightarrow> path \<Rightarrow> 's
     \<Rightarrow> error option \<times> 's" where
  "Walk follow cb fs pathname s =
     (case fs pathname of
        None \<Rightarrow> (Some (ErrOther ''lstat: no such file or directory''), s)
      | Some n \<Rightarrow>
          if (if follow then entries_of n = None else \<not> IsDir n)
          then (Some (ErrOther ''cannot Walk non-directory''), s)
          else (case walk follow cb pathname n s of
                  (WErr err, s1) \<Rightarrow> (Some err, s1)
                | (r, s1) \<Rightarrow> (None, s1)))"

text \<open>
  \<open>filepath.Walk\<close> of the standard library: \<open>Lstat\<close> on every entry, the callback on an
  entry before its children, descent into whatever the mode calls a directory; the
  callback gets the error of reading the directory, and the walk stops at the first error
  it returns.
\<close>

function fwalk ::
    "(path \<Rightarrow> node \<Rightarrow> error option \<Rightarrow> 's \<Rightarrow> error option \<times> 's) \<Rightarrow> path \<Rightarrow> node \<Rightarrow> 's
       \<Rightarrow> error option \<times> 's"
  and fwalk_children ::
    "(path \<Rightarrow> node \<Rightarrow> error option \<Rightarrow> 's \<Rightarrow> error option \<times> 's) \<Rightarrow> path \<Rightarrow> (string \<times> node) list
       \<Rightarrow> 's \<Rightarrow> error option \<times> 's" where
  "fwalk fn p n s =
     (if \<not> IsDir n then fn p n None s
      else (case entries_of n of
              None \<Rightarrow> fn p n (Some (ErrOther ''open: not a directory'')) s
            | Some cs \<Rightarrow>
                (case fn p n None s of
                   (Some err, s1) \<Rightarrow> (Some err, s1)
                 | (None, s1) \<Rightarrow> fwalk_children fn p cs s1)))"
| "fwalk_children fn p [] s = (None, s)"
| "fwalk_children fn p (c # cs) s =
     (case fwalk fn (p @ [fst c]) (snd c) s of
        (Some err, s1) \<Rightarrow> (Some err, s1)
      | (None, s1) \<Rightarrow> fwalk_children fn p cs s1)"
  by pat_completeness auto
termination
proof -
  have r: "size m \<le> size n" if "resolve n = Some m" for n m :: node
    using that by (induction n rule: resolve.induct) auto
  have e: "size_list (size_prod (\<lambda>x. 0) size) cs < size n" if "entries_of n = Some cs" for n cs
    using that by (auto simp: entries_of_def split: option.splits node.splits dest!: r)
  show ?thesis
    by (relation "measure (\<lambda>x. case x of
          Inl (fn, p, n, s) \<Rightarrow> 2 * size n
        | Inr (fn, p, cs, s) \<Rightarrow> 2 * size_list (size_prod (\<lambda>x. 0) size) cs + 1)")
       (auto dest!: e simp: less_Suc_eq_le)
qed

declare fwalk.simps [simp del]

text \<open>
  When \<open>Lstat\<close> of the root fails, the callback gets a \<open>nil\<close> info and the error; the
  placeholder entry stands for the \<open>nil\<close>, which a callback must not read.
\<close>

definition filepath_Walk ::
  "(path \<Rightarrow> node \<Rightarrow> error option \<Rightarrow> 's \<Rightarrow> error option \<times> 's) \<Rightarrow> (path \<rightharpoonup> node) \<Rightarrow> path \<Rightarrow> 's
     \<Rightarrow> error option \<times> 's" where
  "filepath_Walk fn fs pathname s =
     (case fs pathname of
        None \<Rightarrow> fn pathname (File 0) (Some (ErrOther ''lstat: no such file or directory'')) s
      | Some n \<Rightarrow> fwalk fn pathname n s)"

section \<open>The filesystem jail: directory size and ownership\<close>

text \<open>
  Modelled from the spec: \<open>IsErrorCode\<close> and \<open>ErrCodePathResolution\<close> are declared
  elsewhere in the repository; the spec has the path escape as a distinct, identifiable
  error kind, also when wrapped.  \<open>SafePath\<close> itself is a parameter of the functions
  below.
\<close>

fun IsErrorCode_PathResolution :: "error \<Rightarrow> bool" where
  "IsErrorCode_PathResolution ErrPathResolution = True"
| "IsErrorCode_PathResolution (Wrapped m e) = IsErrorCode_PathResolution e"
| "IsErrorCode_PathResolution e = False"

text \<open>\<open>errors.WrapIf\<close> and \<open>errors.Wrap\<close>: \<open>nil\<close> stays \<open>nil\<close>.\<close>

definition WrapIf :: "error option \<Rightarrow> string \<Rightarrow> error option" where
  "WrapIf err msg = map_option (Wrapped msg) err"

text \<open>
  The state of a size walk: the running total, and the paths handed to \<open>SafePath\<close> so
  far, oldest first.
\<close>

record size_state =
  size_sum :: "64 word"
  checked :: "path list"

text \<open>disk_space_linux.go: the callback of \<open>DirectorySize\<close>.\<close>

definition size_callback ::
  "(path \<Rightarrow> error + path) \<Rightarrow> path \<Rightarrow> node \<Rightarrow> size_state \<Rightarrow> cb_result \<times> size_state" where
  "size_callback SafePath p e s =
     (let count = (\<lambda>s. if \<not> IsDir e then s\<lparr>size_sum := size_sum s + lstat_Size e\<rparr> else s)
      in if IsSymlink e
         then (let s1 = s\<lparr>checked := checked s @ [p]\<rparr>
               in case SafePath p of
                    Inl err \<Rightarrow>
                      if IsErrorCode_PathResolution err then (CbSkipThis, s1) else (CbErr err, s1)
                  | Inr q \<Rightarrow> (CbNil, count s1))
         else (CbNil, count s))"

text \<open>disk_space_linux.go: \<open>DirectorySize\<close>.  The result is Go's pair of size and error.\<close>

definition DirectorySize_linux ::
  "(path \<rightharpoonup> node) \<Rightarrow> (path \<Rightarrow> error + path) \<Rightarrow> path \<Rightarrow> (64 word \<times> error option) \<times> path list" where
  "DirectorySize_linux fs SafePath dir =
     (case SafePath dir of
        Inl err \<Rightarrow> ((0, Some err), [dir])
      | Inr d \<Rightarrow>
          (let (err, s) = Walk False (size_callback SafePath) fs d \<lparr>size_sum = 0, checked = [dir]\<rparr>
           in ((size_sum s,
                WrapIf err ''server/filesystem: directorysize: failed to walk directory''),
               checked s)))"

text \<open>The other build of \<open>DirectorySize\<close>, on \<open>filepath.Walk\<close>, and its callback.\<close>

definition size_walkfn ::
  "path \<Rightarrow> node \<Rightarrow> error option \<Rightarrow> size_state \<Rightarrow> error option \<times> size_state" where
  "size_walkfn p info err s =
     (case err of
        Some e \<Rightarrow> (Some e, s)
      | None \<Rightarrow> (None, if \<not> IsDir info then s\<lparr>size_sum := size_sum s + lstat_Size info\<rparr> else s))"

definition DirectorySize_windows ::
  "(path \<rightharpoonup> node) \<Rightarrow> (path \<Rightarrow> error + path) \<Rightarrow> path \<Rightarrow> (64 word \<times> error option) \<times> path list" where
  "DirectorySize_windows fs SafePath dir =
     (case SafePath dir of
        Inl err \<Rightarrow> ((0, Some err), [dir])
      | Inr d \<Rightarrow>
          (let (err, s) = filepath_Walk size_walkfn fs d \<lparr>size_sum = 0, checked = [dir]\<rparr>
           in ((size_sum s,
                WrapIf err ''server/filesystem: directorysize: failed to walk directory''),
               checked s)))"

text \<open>
  \<open>Chown\<close> (the build on \<open>windows.SetNamedSecurityInfo\<close>) and the callback of its walk.
  The state of the walk is the list of paths that \<open>SetNamedSecurityInfo\<close> has been called
  on, oldest first.  \<open>StringToSid\<close> and \<open>SetNamedSecurityInfo\<close> are system calls and
  parameters here; \<open>uid\<close> and \<open>gid\<close> come from the configuration.
\<close>

definition chown_callback ::
  "(path \<Rightarrow> error option) \<Rightarrow> path \<Rightarrow> node \<Rightarrow> path list \<Rightarrow> cb_result \<times> path list" where
  "chown_callback setOwner p e called =
     (if IsSymlink e
      then (if IsDir e then (CbSkipThis, called) else (CbNil, called))
      else (case setOwner p of
              None \<Rightarrow> (CbNil, called @ [p])
            | Some err \<Rightarrow> (CbErr err, called @ [p])))"

text \<open>\<open>os.Stat(cleaned)\<close> succeeds and reports a directory.\<close>

definition stat_IsDir :: "(path \<rightharpoonup> node) \<Rightarrow> path \<Rightarrow> bool" where
  "stat_IsDir fs p = (case fs p of None \<Rightarrow> False | Some n \<Rightarrow> entries_of n \<noteq> None)"

definition Chown ::
  "(path \<rightharpoonup> node) \<Rightarrow> (path \<Rightarrow> error + path) \<Rightarrow> bool \<Rightarrow> (string \<Rightarrow> error + 'sid) \<Rightarrow> string \<Rightarrow> string
     \<Rightarrow> ('sid \<Rightarrow> 'sid \<Rightarrow> path \<Rightarrow> error option) \<Rightarrow> path \<Rightarrow> error option \<times> path list" where
  "Chown fs SafePath isTest StringToSid uid gid SetNamedSecurityInfo pth =
     (case SafePath pth of
        Inl err \<Rightarrow> (Some err, [])
      | Inr cleaned \<Rightarrow>
          if isTest then (None, [])
          else (case StringToSid uid of
                  Inl err \<Rightarrow> (Some err, [])
                | Inr uSid \<Rightarrow>
                    (case StringToSid gid of
                       Inl err \<Rightarrow> (Some err, [])
                     | Inr gSid \<Rightarrow>
                         (case SetNamedSecurityInfo uSid gSid cleaned of
                            Some err \<Rightarrow>
                              (Some (Wrapped ''server/filesystem: chown: failed to chown path'' err),
                               [cleaned])
                          | None \<Rightarrow>
                              if \<not> stat_IsDir fs cleaned then (None, [cleaned])
                              else (let (err, called) =
                                          Walk False (chown_callback (SetNamedSecurityInfo uSid gSid))
                                            fs cleaned [cleaned]
                                    in (WrapIf err
                                          ''server/filesystem: chown: failed to chown during walk function'',
                                        called))))))"

text \<open>
  The entries of a tree that are no symbolic links and do not lie behind one, by path, in
  the order of the walk; and the paths of its symbolic links that do not lie behind
  another.
\<close>

fun plain_entries :: "path \<Rightarrow> node \<Rightarrow> path list"
  and plain_children :: "path \<Rightarrow> (string \<times> node) list \<Rightarrow> path list" where
  "plain_entries p (File sz) = [p]"
| "plain_entries p (Symlink sz d t) = []"
| "plain_entries p (Dir cs) = p # plain_children p cs"
| "plain_children p [] = []"
| "plain_children p (c # cs) = plain_entries (p @ [fst c]) (snd c) @ plain_children p cs"

fun link_paths :: "path \<Rightarrow> node \<Rightarrow> path list"
  and link_children :: "path \<Rightarrow> (string \<times> node) list \<Rightarrow> path list" where
  "link_paths p (File sz) = []"
| "link_paths p (Symlink sz d t) = [p]"
| "link_paths p (Dir cs) = link_children p cs"
| "link_children p [] = []"
| "link_children p (c # cs) = link_paths (p @ [fst c]) (snd c) @ link_children p cs"

text \<open>No directory of the tree lists a name twice.\<close>

fun distinct_names :: "node \<Rightarrow> bool" where
  "distinct_names (Dir cs) = (distinct (map fst cs) \<and> (\<forall>c \<in> set cs. distinct_names (snd c)))"
| "distinct_names n = True"

text \<open>
  What a size walk should count: the size of every regular file, and the size of every
  symbolic link that passes the jail's check and has no directory bit; nothing for a link
  that fails the check, and nothing behind any link.
\<close>

fun jail_size :: "(path \<Rightarrow> error + path) \<Rightarrow> path \<Rightarrow> node \<Rightarrow> 64 word"
  and jail_size_children :: "(path \<Rightarrow> error + path) \<Rightarrow> path \<Rightarrow> (string \<times> node) list \<Rightarrow> 64 word" where
  "jail_size S p (File sz) = sz"
| "jail_size S p (Symlink sz d t) = (case S p of Inl e \<Rightarrow> 0 | Inr q \<Rightarrow> if d then 0 else sz)"
| "jail_size S p (Dir cs) = jail_size_children S p cs"
| "jail_size_children S p [] = 0"
| "jail_size_children S p (c # cs) =
     jail_size S (p @ [fst c]) (snd c) + jail_size_children S p cs"

text \<open>
  The scenario of the spec: a root with one 100-byte file and one symbolic link that
  points outside the root, which the jail's check rejects as a path escape.
\<close>

definition escape_tree :: node where
  "escape_tree =
     Dir [(''server.jar'', File 100),
          (''escape'', Symlink 0 False (Some (Dir [(''shadow'', File 4096)])))]"

definition escape_fs :: "path \<rightharpoonup> node" where
  "escape_fs = [[''srv''] \<mapsto> escape_tree]"

definition escape_SafePath :: "path \<Rightarrow> error + path" where
  "escape_SafePath p = (if p = [''srv'', ''escape''] then Inl ErrPathResolution else Inr p)"

text \<open>
  A data directory with a file, a link to a directory (with the directory bit), a link to
  a file and a subdirectory; and system calls that succeed.
\<close>

definition data_tree :: node where
  "data_tree =
     Dir [(''a.txt'', File 10),
          (''dlink'', Symlink 0 True (Some (Dir [(''secret'', File 5)]))),
          (''flink'', Symlink 0 False (Some (File 7))),
          (''sub'', Dir [(''b'', File 1)])]"

definition data_fs :: "path \<rightharpoonup> node" where
  "data_fs = [[''srv''] \<mapsto> data_tree]"

definition sid_ok :: "string \<Rightarrow> error + string" where
  "sid_ok s = Inr s"

definition owner_ok :: "string \<Rightarrow> string \<Rightarrow> path \<Rightarrow> error option" where
  "owner_ok u g p = None"

definition safe_ok :: "path \<Rightarrow> error + path" where
  "safe_ok p = Inr p"

section \<open>Theorems\<close>

subsection \<open>Memory normalisation\<close>

text \<open>
  C3.  Variant A memory normalisation (\<open>calculateDockerMemory\<close> of stats_linux.go): when the
  \<open>total_inactive_file\<close> counter is present and smaller than the usage, the result is the
  usage minus that counter; otherwise, when the \<open>inactive_file\<close> counter (read as 0 when
  absent) is smaller than the usage, the result is the usage minus that counter; otherwise
  the result is the raw usage.  Neither subtraction wraps around.  In particular, when both
  counters are at least the usage, the result is the raw usage.
\<close>

theorem calculateDockerMemory_variant_a:
  "(\<forall>v. Stats stats ''total_inactive_file'' = Some v \<and> v < Usage stats \<longrightarrow>
        calculateDockerMemory_linux stats = Usage stats - v
      \<and> unat (calculateDockerMemory_linux stats) = unat (Usage stats) - unat v
      \<and> unat v < unat (Usage stats))
   \<and> (\<not> (\<exists>v. Stats stats ''total_inactive_file'' = Some v \<and> v < Usage stats)
        \<and> map_index (Stats stats) ''inactive_file'' < Usage stats \<longrightarrow>
        calculateDockerMemory_linux stats = Usage stats - map_index (Stats stats) ''inactive_file''
      \<and> unat (calculateDockerMemory_linux stats)
          = unat (Usage stats) - unat (map_index (Stats stats) ''inactive_file''))
   \<and> (\<not> (\<exists>v. Stats stats ''total_inactive_file'' = Some v \<and> v < Usage stats)
        \<and> \<not> map_index (Stats stats) ''inactive_file'' < Usage stats \<longrightarrow>
        calculateDockerMemory_linux stats = Usage stats)
   \<and> ((\<forall>v. Stats stats ''total_inactive_file'' = Some v \<longrightarrow> Usage stats \<le> v)
        \<and> Usage stats \<le> map_index (Stats stats) ''inactive_file'' \<longrightarrow>
        calculateDockerMemory_linux stats = Usage stats)"
  by (auto simp: calculateDockerMemory_linux_def Let_def
        unat_sub word_less_nat_alt word_le_nat_alt split: option.splits)

theorem calculateDockerMemory_variant_a_witness:
  "calculateDockerMemory_linux
     \<lparr>Usage = 1000, Stats = [''total_inactive_file'' \<mapsto> 300, ''inactive_file'' \<mapsto> 200],
      Limit = 0, PrivateWorkingSet = 0\<rparr> = 700
   \<and> calculateDockerMemory_linux
     \<lparr>Usage = 1000, Stats = [''total_inactive_file'' \<mapsto> 3000, ''inactive_file'' \<mapsto> 200],
      Limit = 0, PrivateWorkingSet = 0\<rparr> = 800
   \<and> calculateDockerMemory_linux
     \<lparr>Usage = 1000, Stats = [''total_inactive_file'' \<mapsto> 3000, ''inactive_file'' \<mapsto> 2000],
      Limit = 0, PrivateWorkingSet = 0\<rparr> = 1000"
  using calculateDockerMemory_variant_a
          [of "\<lparr>Usage = 1000,
                 Stats = [''total_inactive_file'' \<mapsto> 300, ''inactive_file'' \<mapsto> 200],
                 Limit = 0, PrivateWorkingSet = 0\<rparr>"]
        calculateDockerMemory_variant_a
          [of "\<lparr>Usage = 1000,
                 Stats = [''total_inactive_file'' \<mapsto> 3000, ''inactive_file'' \<mapsto> 200],
                 Limit = 0, PrivateWorkingSet = 0\<rparr>"]
        calculateDockerMemory_variant_a
          [of "\<lparr>Usage = 1000,
                 Stats = [''total_inactive_file'' \<mapsto> 3000, ''inactive_file'' \<mapsto> 2000],
                 Limit = 0, PrivateWorkingSet = 0\<rparr>"]
  by (simp add: map_index_def)

subsection \<open>CPU normalisation\<close>

lemma f64_round_zero: "f64_round 0 = 0"
  by (simp add: f64_round_def)

lemma f64_mul_zero_left: "f64_mul 0 x = 0"
  by (simp add: f64_mul_def f64_round_zero)

lemma f64_div_zero_left: "f64_div 0 x = 0"
  by (simp add: f64_div_def f64_round_zero)

lemma math_Round_zero: "math_Round 0 = 0"
  by (simp add: math_Round_def)

lemma f64_of_u64_zero: "f64_of_u64 0 = 0"
  by (simp add: f64_of_u64_def f64_round_zero)

lemma pow2_powi: "pow2 e = 2 powi e"
  by (simp add: pow2_def power_int_def field_simps)

lemma pow2_pos: "0 < pow2 e"
  by (simp add: pow2_powi)

lemma pow2_add: "pow2 (a + b) = pow2 a * pow2 b"
  by (simp add: pow2_powi power_int_add)

lemma pow2_Suc: "pow2 (1 + b) = 2 * pow2 b"
  using pow2_add [of 1 b] by (simp add: pow2_def)

lemma pow2_mono: "a \<le> b \<Longrightarrow> pow2 a \<le> pow2 b"
  by (simp add: pow2_powi power_int_increasing)

lemma pow2_less_cancel: "pow2 a < pow2 b \<Longrightarrow> a < b"
  using pow2_mono [of b a] by (cases "a < b") auto

lemma bitlen_nonneg: "0 \<le> bitlen n"
  by (induction n rule: bitlen.induct) (subst bitlen.simps, auto)

lemma bitlen_step: "0 < n \<Longrightarrow> bitlen n = 1 + bitlen (n div 2)"
  by (subst bitlen.simps) simp

lemma bitlen_bounds:
  "0 < n \<Longrightarrow> pow2 (bitlen n - 1) \<le> of_int n \<and> of_int n < pow2 (bitlen n)"
proof (induction n rule: bitlen.induct)
  case (1 n)
  show ?case
  proof (cases "n = 1")
    case True
    have "bitlen 1 = 1" by (simp add: bitlen.simps [of 1] bitlen.simps [of 0])
    then show ?thesis using True by (simp add: pow2_def)
  next
    case False
    with 1(2) have h: "0 < n div 2" by simp
    with 1 have ih: "pow2 (bitlen (n div 2) - 1) \<le> of_int (n div 2)"
      "of_int (n div 2) < pow2 (bitlen (n div 2))"
      by auto
    have b: "bitlen n = 1 + bitlen (n div 2)"
      using 1(2) by (rule bitlen_step)
    have p1: "pow2 (bitlen n - 1) = 2 * pow2 (bitlen (n div 2) - 1)"
      using pow2_Suc [of "bitlen (n div 2) - 1"] b by simp
    have p2: "pow2 (bitlen n) = 2 * pow2 (bitlen (n div 2))"
      using pow2_Suc [of "bitlen (n div 2)"] b by simp
    have lo: "2 * (n div 2) \<le> n" by simp
    have hi: "n + 1 \<le> 2 * (n div 2 + 1)" by presburger
    have "2 * pow2 (bitlen (n div 2) - 1) \<le> 2 * rat_of_int (n div 2)"
      using ih(1) by simp
    also have "\<dots> = rat_of_int (2 * (n div 2))" by simp
    also have "\<dots> \<le> of_int n" using lo by (simp only: of_int_le_iff)
    finally have A: "pow2 (bitlen n - 1) \<le> of_int n" unfolding p1 .
    from ih(2) have "rat_of_int (n div 2) < pow2 (bitlen (n div 2))" .
    have "\<exists>k::int. pow2 (bitlen (n div 2)) = of_int k"
      using bitlen_nonneg [of "n div 2"]
      by (intro exI [of _ "2 ^ nat (bitlen (n div 2))"]) (simp add: pow2_def)
    then obtain k :: int where k: "pow2 (bitlen (n div 2)) = of_int k" by blast
    with ih(2) have "n div 2 < k" by simp
    then have "n div 2 + 1 \<le> k" by simp
    with hi have "n + 1 \<le> 2 * k" by simp
    then have "n < 2 * k" by simp
    then have "rat_of_int n < rat_of_int (2 * k)" by (simp only: of_int_less_iff)
    then have B: "of_int n < pow2 (bitlen n)" unfolding p2 k by simp
    from A B show ?thesis by simp
  qed
qed

lemma bitlen_mono: "0 < a \<Longrightarrow> a \<le> b \<Longrightarrow> bitlen a \<le> bitlen b"
proof -
  assume a: "0 < a" "a \<le> b"
  then have b: "0 < b" by simp
  from bitlen_bounds [OF a(1)] bitlen_bounds [OF b] a(2)
  have "pow2 (bitlen a - 1) < pow2 (bitlen b)"
    by (meson le_less_trans of_int_le_iff order.trans not_le)
  from pow2_less_cancel [OF this] show ?thesis by simp
qed

lemma ilog2_of_int: "0 < a \<Longrightarrow> ilog2 (of_int a) = bitlen a - 1"
proof -
  assume a: "0 < a"
  have "bitlen 1 = 1" by (simp add: bitlen.simps [of 1] bitlen.simps [of 0])
  then show ?thesis
    using bitlen_bounds [OF a] by (simp add: ilog2_def)
qed


lemma round_half_even_cases:
  "round_half_even x = \<lfloor>x\<rfloor> \<or> round_half_even x = \<lfloor>x\<rfloor> + 1"
  by (simp add: round_half_even_def Let_def)

lemma round_half_even_of_int: "round_half_even (of_int n) = n"
  by (simp add: round_half_even_def Let_def)

lemma round_half_even_mono:
  assumes "x \<le> y"
  shows "round_half_even x \<le> round_half_even y"
proof (cases "\<lfloor>x\<rfloor> = \<lfloor>y\<rfloor>")
  case True
  have "x - of_int \<lfloor>x\<rfloor> \<le> y - of_int \<lfloor>y\<rfloor>"
    using assms True by simp
  then show ?thesis
    using True by (auto simp: round_half_even_def Let_def)
next
  case False
  with assms have "\<lfloor>x\<rfloor> < \<lfloor>y\<rfloor>"
    using floor_mono [OF assms] by simp
  then have "\<lfloor>x\<rfloor> + 1 \<le> \<lfloor>y\<rfloor>" by simp
  moreover have "round_half_even x \<le> \<lfloor>x\<rfloor> + 1"
    using round_half_even_cases [of x] by auto
  moreover have "\<lfloor>y\<rfloor> \<le> round_half_even y"
    using round_half_even_cases [of y] by auto
  ultimately show ?thesis by simp
qed

lemma pow2_int: "0 \<le> e \<Longrightarrow> pow2 e = of_int (2 ^ nat e)"
  by (simp add: pow2_def)

lemma f64_round_pos:
  assumes "0 < x"
  shows "f64_round x
           = of_int (round_half_even (x * pow2 (52 - ilog2 x))) * pow2 (ilog2 x - 52)"
  using assms by (simp add: f64_round_def Let_def)

lemma f64_round_bounds:
  assumes "0 < x" "pow2 (ilog2 x) \<le> x" "x < pow2 (ilog2 x + 1)"
  shows "pow2 (ilog2 x) \<le> f64_round x \<and> f64_round x \<le> pow2 (ilog2 x + 1)"
proof -
  let ?e = "ilog2 x"
  let ?m = "x * pow2 (52 - ?e)"
  have s: "0 < pow2 (52 - ?e)" by (rule pow2_pos)
  have "pow2 ?e * pow2 (52 - ?e) \<le> ?m"
    using assms(2) s by (simp add: mult_right_mono)
  then have lo: "of_int (2 ^ 52) \<le> ?m"
    using pow2_add [of ?e "52 - ?e"] pow2_int [of 52] by simp
  have "?m < pow2 (?e + 1) * pow2 (52 - ?e)"
    using assms(3) s by (simp add: mult_strict_right_mono)
  then have hi: "?m \<le> of_int (2 ^ 53)"
    using pow2_add [of "?e + 1" "52 - ?e"] pow2_int [of 53] by simp
  have rlo: "2 ^ 52 \<le> round_half_even ?m"
    using round_half_even_mono [OF lo] by (simp only: round_half_even_of_int)
  have rhi: "round_half_even ?m \<le> 2 ^ 53"
    using round_half_even_mono [OF hi] by (simp only: round_half_even_of_int)
  have t: "0 < pow2 (?e - 52)" by (rule pow2_pos)
  have "pow2 52 * pow2 (?e - 52) \<le> of_int (round_half_even ?m) * pow2 (?e - 52)"
    using rlo t pow2_int [of 52] by (simp add: mult_right_mono)
  then have A: "pow2 ?e \<le> f64_round x"
    using pow2_add [of 52 "?e - 52"] f64_round_pos [OF assms(1)] by simp
  have "of_int (round_half_even ?m) * pow2 (?e - 52) \<le> pow2 53 * pow2 (?e - 52)"
    using rhi t pow2_int [of 53] by (simp add: mult_right_mono)
  then have B: "f64_round x \<le> pow2 (?e + 1)"
    using pow2_add [of 53 "?e - 52"] f64_round_pos [OF assms(1)] by (simp add: add.commute)
  from A B show ?thesis by simp
qed

lemma f64_round_of_int_mono:
  assumes "0 < a" "a \<le> b"
  shows "f64_round (of_int a) \<le> f64_round (of_int b)"
proof -
  have b: "0 < b" using assms by simp
  have xa: "(0::rat) < of_int a" and xb: "(0::rat) < of_int b" using assms b by simp_all
  have ea: "ilog2 (of_int a) = bitlen a - 1" using assms(1) by (rule ilog2_of_int)
  have eb: "ilog2 (of_int b) = bitlen b - 1" using b by (rule ilog2_of_int)
  have ba: "pow2 (ilog2 (of_int a)) \<le> f64_round (of_int a)
            \<and> f64_round (of_int a) \<le> pow2 (ilog2 (of_int a) + 1)"
    using f64_round_bounds [OF xa] bitlen_bounds [OF assms(1)] ea by simp
  have bb: "pow2 (ilog2 (of_int b)) \<le> f64_round (of_int b)
            \<and> f64_round (of_int b) \<le> pow2 (ilog2 (of_int b) + 1)"
    using f64_round_bounds [OF xb] bitlen_bounds [OF b] eb by simp
  have le: "bitlen a \<le> bitlen b" using assms by (rule bitlen_mono)
  show ?thesis
  proof (cases "bitlen a = bitlen b")
    case True
    then have e: "ilog2 (rat_of_int a) = ilog2 (rat_of_int b)" using ea eb by simp
    have "rat_of_int a * pow2 (52 - ilog2 (of_int b)) \<le> of_int b * pow2 (52 - ilog2 (of_int b))"
      using assms(2) pow2_pos [of "52 - ilog2 (rat_of_int b)"] by (simp add: mult_right_mono)
    from round_half_even_mono [OF this]
    have "rat_of_int (round_half_even (of_int a * pow2 (52 - ilog2 (of_int b))))
            * pow2 (ilog2 (of_int b) - 52)
          \<le> of_int (round_half_even (of_int b * pow2 (52 - ilog2 (of_int b))))
            * pow2 (ilog2 (of_int b) - 52)"
      using pow2_pos [of "ilog2 (rat_of_int b) - 52"] by (simp add: mult_right_mono)
    then show ?thesis
      unfolding f64_round_pos [OF xa] f64_round_pos [OF xb] e .
  next
    case False
    with le have "ilog2 (rat_of_int a) + 1 \<le> ilog2 (rat_of_int b)" using ea eb by simp
    from pow2_mono [OF this] ba bb show ?thesis by simp
  qed
qed

lemma f64_round_nonneg: "0 \<le> x \<Longrightarrow> 0 \<le> f64_round x"
proof -
  assume "0 \<le> x"
  then have "0 \<le> round_half_even (x * pow2 (52 - ilog2 x))"
    using round_half_even_mono [of 0 "x * pow2 (52 - ilog2 x)"] pow2_pos [of "52 - ilog2 x"]
    by (simp add: round_half_even_def)
  then show ?thesis
    using \<open>0 \<le> x\<close> pow2_pos [of "ilog2 x - 52"]
    by (cases "x = 0") (simp_all add: f64_round_def Let_def)
qed

lemma f64_round_nonpos: "x \<le> 0 \<Longrightarrow> f64_round x \<le> 0"
proof -
  assume a: "x \<le> 0"
  have "0 \<le> round_half_even (\<bar>x\<bar> * pow2 (52 - ilog2 \<bar>x\<bar>))"
    using round_half_even_mono [of 0 "\<bar>x\<bar> * pow2 (52 - ilog2 \<bar>x\<bar>)"]
      pow2_pos [of "52 - ilog2 \<bar>x\<bar>"]
    by (simp add: round_half_even_def)
  then have "0 \<le> rat_of_int (round_half_even (\<bar>x\<bar> * pow2 (52 - ilog2 \<bar>x\<bar>)))
                  * pow2 (ilog2 \<bar>x\<bar> - 52)"
    using pow2_pos [of "ilog2 \<bar>x\<bar> - 52"] by simp
  then show ?thesis
    using a by (cases "x = 0") (simp_all add: f64_round_def Let_def mult.assoc mult_le_0_iff)
qed

lemma f64_of_u64_mono: "a \<le> b \<Longrightarrow> f64_of_u64 a \<le> f64_of_u64 b"
proof -
  assume "a \<le> b"
  then have u: "uint a \<le> uint b" by (simp add: word_le_def)
  show ?thesis
  proof (cases "uint a = 0")
    case True
    then have "f64_of_u64 a = 0"
      by (simp add: f64_of_u64_def f64_round_zero)
    moreover have "0 \<le> f64_of_u64 b"
      unfolding f64_of_u64_def by (rule f64_round_nonneg) (simp only: of_int_0_le_iff uint_ge_0)
    ultimately show ?thesis by simp
  next
    case False
    then have "0 < uint a" using uint_ge_0 [of a] by linarith
    from f64_round_of_int_mono [OF this u] show ?thesis by (simp add: f64_of_u64_def)
  qed
qed

lemma f64_sub_nonpos: "a \<le> b \<Longrightarrow> f64_sub a b \<le> 0"
  by (simp add: f64_sub_def f64_round_nonpos)

lemma deltas_nonpos:
  "SystemUsage (CPUStats v) \<le> SystemUsage (PreCPUStats v) \<Longrightarrow> systemDelta v \<le> 0"
  "TotalUsage (CPUUsage (CPUStats v)) \<le> TotalUsage (CPUUsage (PreCPUStats v)) \<Longrightarrow> cpuDelta v \<le> 0"
  by (simp_all add: systemDelta_def cpuDelta_def f64_sub_nonpos f64_of_u64_mono)

lemma calculateDockerAbsoluteCpu_linux_guard:
  "systemDelta v \<le> 0 \<or> cpuDelta v \<le> 0 \<Longrightarrow> calculateDockerAbsoluteCpu_linux v = 0"
  by (auto simp: calculateDockerAbsoluteCpu_linux_def f64_mul_zero_left f64_div_zero_left
        math_Round_zero)

lemma calculateDockerAbsoluteCpu_windows_guard:
  "possIntervals v = 0 \<or> intervalsUsed v = 0 \<Longrightarrow> calculateDockerAbsoluteCpu_windows v = 0"
  by (auto simp: calculateDockerAbsoluteCpu_windows_def f64_mul_zero_left f64_div_zero_left
        f64_of_u64_zero)

lemma word64_small_div_100:
  fixes d :: int
  assumes "0 \<le> d" "d < 100"
  shows "(word_of_int d :: 64 word) div 100 = 0"
proof -
  have "d < 2 ^ 64" using assms by simp
  then have u: "uint (word_of_int d :: 64 word) = d"
    using assms by (simp add: uint_word_of_int take_bit_int_eq_self)
  have "uint ((word_of_int d :: 64 word) div 100) = d div 100"
    by (simp add: uint_div u)
  also have "\<dots> = 0" using assms by simp
  finally show ?thesis by (simp add: word_uint_eq_iff)
qed

lemma possIntervals_short:
  assumes "0 \<le> Read v - PreRead v" "Read v - PreRead v < 100"
  shows "possIntervals v = 0"
proof -
  have t: "time_Sub (Read v) (PreRead v) = Read v - PreRead v"
    using assms by (simp add: time_Sub_def)
  show ?thesis
    unfolding possIntervals_def t Nanoseconds_def
    using word64_small_div_100 [OF assms] by simp
qed

text \<open>
  C4, as stated, fails for Variant B.  In \<open>counter_reset_sample\<close> the container CPU
  delta is negative (the counter went from 5000000 to 1000000), and in
  \<open>clock_step_sample\<close> the elapsed time is negative (\<open>-1000\<close> ns); in both,
  \<open>calculateDockerAbsoluteCpu\<close> of stats_windows.go returns a non-zero percentage: its
  arithmetic is unsigned, and only a count of possible intervals equal to zero is guarded.
\<close>

theorem calculateDockerAbsoluteCpu_windows_counterexample:
  "uint (TotalUsage (CPUUsage (CPUStats counter_reset_sample)))
     - uint (TotalUsage (CPUUsage (PreCPUStats counter_reset_sample))) \<le> 0
   \<and> calculateDockerAbsoluteCpu_windows counter_reset_sample = 5902958103585777 / 64
   \<and> calculateDockerAbsoluteCpu_windows counter_reset_sample \<noteq> 0
   \<and> time_Sub (Read clock_step_sample) (PreRead clock_step_sample) \<le> 0
   \<and> calculateDockerAbsoluteCpu_windows clock_step_sample = 3125 / 576460752303423488
   \<and> calculateDockerAbsoluteCpu_windows clock_step_sample \<noteq> 0"
  by code_simp

text \<open>
  C4, amended.  Variant A (stats_linux.go): whenever \<open>systemDelta \<le> 0\<close> or
  \<open>cpuDelta \<le> 0\<close>, the CPU percent is 0.0; this is the case whenever the system
  counter or the container counter of the current reading is not above the one of the
  previous reading.  Variant B (stats_windows.go): the CPU percent is 0.0 whenever the
  count of possible 100ns intervals is zero, which includes every elapsed time from 0 to
  99 ns, and whenever the count of used intervals is zero, which is the case when the
  container CPU counter did not change.
\<close>

theorem calculateDockerAbsoluteCpu_zero:
  "(systemDelta v \<le> 0 \<or> cpuDelta v \<le> 0 \<longrightarrow> calculateDockerAbsoluteCpu_linux v = 0)
   \<and> (SystemUsage (CPUStats v) \<le> SystemUsage (PreCPUStats v)
        \<or> TotalUsage (CPUUsage (CPUStats v)) \<le> TotalUsage (CPUUsage (PreCPUStats v)) \<longrightarrow>
        calculateDockerAbsoluteCpu_linux v = 0)
   \<and> (possIntervals v = 0 \<or> intervalsUsed v = 0 \<longrightarrow> calculateDockerAbsoluteCpu_windows v = 0)
   \<and> (0 \<le> Read v - PreRead v \<and> Read v - PreRead v < 100 \<longrightarrow>
        calculateDockerAbsoluteCpu_windows v = 0)
   \<and> (TotalUsage (CPUUsage (CPUStats v)) = TotalUsage (CPUUsage (PreCPUStats v)) \<longrightarrow>
        calculateDockerAbsoluteCpu_windows v = 0)"
proof -
  have a: "systemDelta v \<le> 0 \<or> cpuDelta v \<le> 0 \<longrightarrow> calculateDockerAbsoluteCpu_linux v = 0"
    using calculateDockerAbsoluteCpu_linux_guard by blast
  have a': "SystemUsage (CPUStats v) \<le> SystemUsage (PreCPUStats v)
        \<or> TotalUsage (CPUUsage (CPUStats v)) \<le> TotalUsage (CPUUsage (PreCPUStats v)) \<longrightarrow>
        calculateDockerAbsoluteCpu_linux v = 0"
    using deltas_nonpos [of v] calculateDockerAbsoluteCpu_linux_guard [of v] by blast
  have b: "possIntervals v = 0 \<or> intervalsUsed v = 0 \<longrightarrow>
             calculateDockerAbsoluteCpu_windows v = 0"
    using calculateDockerAbsoluteCpu_windows_guard by blast
  have c: "0 \<le> Read v - PreRead v \<and> Read v - PreRead v < 100 \<longrightarrow>
             calculateDockerAbsoluteCpu_windows v = 0"
    using possIntervals_short [of v] calculateDockerAbsoluteCpu_windows_guard [of v] by blast
  have d: "TotalUsage (CPUUsage (CPUStats v)) = TotalUsage (CPUUsage (PreCPUStats v)) \<longrightarrow>
             calculateDockerAbsoluteCpu_windows v = 0"
    using calculateDockerAbsoluteCpu_windows_guard [of v] by (simp add: intervalsUsed_def)
  from a a' b c d show ?thesis by blast
qed

theorem calculateDockerAbsoluteCpu_zero_witness:
  "TotalUsage (CPUUsage (CPUStats counter_reset_sample))
     \<le> TotalUsage (CPUUsage (PreCPUStats counter_reset_sample))
   \<and> cpuDelta counter_reset_sample \<le> 0
   \<and> calculateDockerAbsoluteCpu_linux counter_reset_sample = 0
   \<and> possIntervals stalled_sample = 0
   \<and> 0 \<le> Read stalled_sample - PreRead stalled_sample
   \<and> Read stalled_sample - PreRead stalled_sample < 100
   \<and> calculateDockerAbsoluteCpu_windows stalled_sample = 0"
proof -
  have h0: "TotalUsage (CPUUsage (CPUStats counter_reset_sample))
     \<le> TotalUsage (CPUUsage (PreCPUStats counter_reset_sample))"
    by (simp add: counter_reset_sample_def)
  have h1: "cpuDelta counter_reset_sample \<le> 0"
    by code_simp
  have h2: "possIntervals stalled_sample = 0"
    by code_simp
  have h3: "0 \<le> Read stalled_sample - PreRead stalled_sample
            \<and> Read stalled_sample - PreRead stalled_sample < 100"
    by (simp add: stalled_sample_def)
  from h0 h1 h2 h3 calculateDockerAbsoluteCpu_zero [of counter_reset_sample]
       calculateDockerAbsoluteCpu_zero [of stalled_sample]
  show ?thesis by blast
qed


subsection \<open>Network bootstrap\<close>

lemma NetworkInspect_error_zero:
  "NetworkInspect d name = (r, Some e) \<Longrightarrow> r = zero_NetworkResource"
  by (auto simp: NetworkInspect_def split: if_splits option.splits)

lemma update_network_zero:
  "update_network zero_NetworkResource c = c\<lparr>Driver := [], ISPN := False\<rparr>"
  by (simp add: update_network_def zero_NetworkResource_def)

lemma createDockerNetwork_success:
  assumes "platform_create create"
      and "create_fault (dockerd w) = None"
      and "networks (dockerd w) (Name (cfg w)) = None"
  shows "\<exists>req. create w =
           (None,
            \<lparr>cfg = (if Driver (cfg w) \<noteq> ''host'' \<and> Driver (cfg w) \<noteq> ''overlay''
                        \<and> Driver (cfg w) \<noteq> ''weavemesh''
                     then (cfg w)\<lparr>Interface := Gateway (V4 (Interfaces (cfg w)))\<rparr>
                     else cfg w),
             dockerd = (dockerd w)
               \<lparr>create_calls := create_calls (dockerd w) @ [(Name (cfg w), req)],
                networks := (networks (dockerd w))
                  (Name (cfg w) \<mapsto> \<lparr>nr_Name = Name (cfg w), nr_Driver = Driver (cfg w)\<rparr>)\<rparr>\<rparr>)"
  using assms
  unfolding platform_create_def
  by (cases w) (auto simp: createDockerNetwork_linux_def createDockerNetwork_windows_def
       NetworkCreate_call_def Let_def)

lemma ConfigureDocker_found_eq:
  assumes "NetworkInspect (dockerd w) (Name (cfg w)) = (r, None)"
  shows "ConfigureDocker create None w = (None, w\<lparr>cfg := update_network r (cfg w)\<rparr>)"
  using assms by (simp add: ConfigureDocker_def)

text \<open>
  C7.  When the inspect finds the configured network, \<open>ConfigureDocker\<close> succeeds without
  touching the runtime and stores the found driver in the configuration: driver \<open>host\<close>
  sets the interface to \<open>127.0.0.1\<close> and ISPN to false; drivers \<open>overlay\<close> and
  \<open>weavemesh\<close> clear the interface and set ISPN to true; any other driver sets ISPN to
  false (and leaves the interface as it was).
\<close>

theorem ConfigureDocker_found:
  assumes "NetworkInspect (dockerd w) (Name (cfg w)) = (r, None)"
      and "ConfigureDocker create None w = (err, w')"
  shows "err = None \<and> dockerd w' = dockerd w \<and> Driver (cfg w') = nr_Driver r
       \<and> (nr_Driver r = ''host'' \<longrightarrow> Interface (cfg w') = ''127.0.0.1'' \<and> \<not> ISPN (cfg w'))
       \<and> (nr_Driver r = ''overlay'' \<or> nr_Driver r = ''weavemesh'' \<longrightarrow>
             Interface (cfg w') = [] \<and> ISPN (cfg w'))
       \<and> (nr_Driver r \<noteq> ''host'' \<and> nr_Driver r \<noteq> ''overlay'' \<and> nr_Driver r \<noteq> ''weavemesh'' \<longrightarrow>
             \<not> ISPN (cfg w') \<and> Interface (cfg w') = Interface (cfg w))"
  using assms(2) unfolding ConfigureDocker_found_eq [OF assms(1)]
  by (auto simp: update_network_def Let_def)

theorem ConfigureDocker_found_witness:
  "NetworkInspect (dockerd (found_world ''overlay'')) (Name (cfg (found_world ''overlay'')))
     = (\<lparr>nr_Name = ''pterodactyl_nw'', nr_Driver = ''overlay''\<rparr>, None)
   \<and> fst (ConfigureDocker createDockerNetwork_windows None (found_world ''overlay'')) = None
   \<and> Interface (cfg (snd (ConfigureDocker createDockerNetwork_windows None
                              (found_world ''overlay'')))) = []
   \<and> ISPN (cfg (snd (ConfigureDocker createDockerNetwork_windows None (found_world ''overlay''))))
   \<and> NetworkInspect (dockerd (found_world ''host'')) (Name (cfg (found_world ''host'')))
     = (\<lparr>nr_Name = ''pterodactyl_nw'', nr_Driver = ''host''\<rparr>, None)
   \<and> Interface (cfg (snd (ConfigureDocker createDockerNetwork_windows None
                              (found_world ''host'')))) = ''127.0.0.1''
   \<and> \<not> ISPN (cfg (snd (ConfigureDocker createDockerNetwork_windows None (found_world ''host''))))
   \<and> NetworkInspect (dockerd (found_world ''nat'')) (Name (cfg (found_world ''nat'')))
     = (\<lparr>nr_Name = ''pterodactyl_nw'', nr_Driver = ''nat''\<rparr>, None)
   \<and> \<not> ISPN (cfg (snd (ConfigureDocker createDockerNetwork_windows None (found_world ''nat''))))"
proof -
  have o: "NetworkInspect (dockerd (found_world ''overlay'')) (Name (cfg (found_world ''overlay'')))
     = (\<lparr>nr_Name = ''pterodactyl_nw'', nr_Driver = ''overlay''\<rparr>, None)"
    by (simp add: found_world_def NetworkInspect_def default_network_def fresh_daemon_def)
  have h: "NetworkInspect (dockerd (found_world ''host'')) (Name (cfg (found_world ''host'')))
     = (\<lparr>nr_Name = ''pterodactyl_nw'', nr_Driver = ''host''\<rparr>, None)"
    by (simp add: found_world_def NetworkInspect_def default_network_def fresh_daemon_def)
  have n: "NetworkInspect (dockerd (found_world ''nat'')) (Name (cfg (found_world ''nat'')))
     = (\<lparr>nr_Name = ''pterodactyl_nw'', nr_Driver = ''nat''\<rparr>, None)"
    by (simp add: found_world_def NetworkInspect_def default_network_def fresh_daemon_def)
  from ConfigureDocker_found [OF o surjective_pairing, of createDockerNetwork_windows]
       ConfigureDocker_found [OF h surjective_pairing, of createDockerNetwork_windows]
       ConfigureDocker_found [OF n surjective_pairing, of createDockerNetwork_windows]
       o h n
  show ?thesis by simp
qed

lemma ConfigureDocker_create_eq:
  assumes "NetworkInspect (dockerd w) (Name (cfg w)) = (r, Some e)" "IsErrNotFound e"
      and "create w = (None, w1)"
  shows "ConfigureDocker create None w = (None, w1\<lparr>cfg := (cfg w1)\<lparr>Driver := [], ISPN := False\<rparr>\<rparr>)"
  using assms NetworkInspect_error_zero [OF assms(1)]
  by (simp add: ConfigureDocker_def update_network_zero)

lemma createDockerNetwork_success_pre:
  assumes "platform_create create" and "fst (create w) = None"
  shows "create_fault (dockerd w) = None \<and> networks (dockerd w) (Name (cfg w)) = None"
  using assms unfolding platform_create_def
  by (auto simp: createDockerNetwork_linux_def createDockerNetwork_windows_def
       NetworkCreate_call_def Let_def split: option.splits if_splits)

text \<open>
  C10.  On the create path (the inspect reported "not found" and \<open>createDockerNetwork\<close>
  succeeded) the configuration update reads the driver from the zero-valued inspect
  result: the stored driver becomes the empty string and ISPN false, whatever driver the
  network was created with (the runtime has the network with the configured driver).
\<close>

theorem ConfigureDocker_create_path:
  assumes "platform_create create"
      and "NetworkInspect (dockerd w) (Name (cfg w)) = (r, Some e)" "IsErrNotFound e"
      and "fst (create w) = None"
      and "ConfigureDocker create None w = (err, w')"
  shows "err = None \<and> r = zero_NetworkResource \<and> Driver (cfg w') = [] \<and> \<not> ISPN (cfg w')
       \<and> networks (dockerd w') (Name (cfg w))
           = Some \<lparr>nr_Name = Name (cfg w), nr_Driver = Driver (cfg w)\<rparr>"
proof -
  from createDockerNetwork_success_pre [OF assms(1,4)]
  obtain req where c: "create w =
           (None,
            \<lparr>cfg = (if Driver (cfg w) \<noteq> ''host'' \<and> Driver (cfg w) \<noteq> ''overlay''
                        \<and> Driver (cfg w) \<noteq> ''weavemesh''
                     then (cfg w)\<lparr>Interface := Gateway (V4 (Interfaces (cfg w)))\<rparr>
                     else cfg w),
             dockerd = (dockerd w)
               \<lparr>create_calls := create_calls (dockerd w) @ [(Name (cfg w), req)],
                networks := (networks (dockerd w))
                  (Name (cfg w) \<mapsto> \<lparr>nr_Name = Name (cfg w), nr_Driver = Driver (cfg w)\<rparr>)\<rparr>\<rparr>)"
    using createDockerNetwork_success [OF assms(1), of w] by blast
  from assms(5) show ?thesis
    unfolding ConfigureDocker_create_eq [where create = create, OF assms(2,3) c]
    using NetworkInspect_error_zero [OF assms(2)] by auto
qed

theorem ConfigureDocker_create_path_witness:
  "NetworkInspect (dockerd fresh_world) (Name (cfg fresh_world))
     = (zero_NetworkResource, Some ErrNotFound)
   \<and> fst (createDockerNetwork_windows fresh_world) = None
   \<and> Driver (cfg fresh_world) = ''nat''
   \<and> fst (ConfigureDocker createDockerNetwork_windows None fresh_world) = None
   \<and> Driver (cfg (snd (ConfigureDocker createDockerNetwork_windows None fresh_world))) = []
   \<and> \<not> ISPN (cfg (snd (ConfigureDocker createDockerNetwork_windows None fresh_world)))
   \<and> networks (dockerd (snd (ConfigureDocker createDockerNetwork_windows None fresh_world)))
        ''pterodactyl_nw''
      = Some \<lparr>nr_Name = ''pterodactyl_nw'', nr_Driver = ''nat''\<rparr>"
proof -
  have p: "platform_create createDockerNetwork_windows"
    by (simp add: platform_create_def)
  have i: "NetworkInspect (dockerd fresh_world) (Name (cfg fresh_world))
     = (zero_NetworkResource, Some ErrNotFound)"
    by (simp add: fresh_world_def NetworkInspect_def default_network_def fresh_daemon_def)
  have c: "fst (createDockerNetwork_windows fresh_world) = None"
    by (simp add: fresh_world_def createDockerNetwork_windows_def NetworkCreate_call_def
          default_network_def fresh_daemon_def Let_def)
  have d: "Driver (cfg fresh_world) = ''nat''" "Name (cfg fresh_world) = ''pterodactyl_nw''"
    by (simp_all add: fresh_world_def default_network_def)
  from ConfigureDocker_create_path [OF p i _ c surjective_pairing] i c d
  show ?thesis by simp
qed

lemma ConfigureDocker_first_call:
  assumes "platform_create create"
      and "Name (cfg w) \<noteq> []" "inspect_fault (dockerd w) = None" "create_fault (dockerd w) = None"
      and "networks (dockerd w) (Name (cfg w)) = None"
  shows "\<exists>req w1. ConfigureDocker create None w = (None, w1)
           \<and> create_calls (dockerd w1) = create_calls (dockerd w) @ [(Name (cfg w), req)]
           \<and> networks (dockerd w1) (Name (cfg w)) \<noteq> None
           \<and> Name (cfg w1) = Name (cfg w)
           \<and> inspect_fault (dockerd w1) = None"
proof -
  have i: "NetworkInspect (dockerd w) (Name (cfg w)) = (zero_NetworkResource, Some ErrNotFound)"
    using assms(2,3,5) by (simp add: NetworkInspect_def)
  obtain req where c: "create w =
           (None,
            \<lparr>cfg = (if Driver (cfg w) \<noteq> ''host'' \<and> Driver (cfg w) \<noteq> ''overlay''
                        \<and> Driver (cfg w) \<noteq> ''weavemesh''
                     then (cfg w)\<lparr>Interface := Gateway (V4 (Interfaces (cfg w)))\<rparr>
                     else cfg w),
             dockerd = (dockerd w)
               \<lparr>create_calls := create_calls (dockerd w) @ [(Name (cfg w), req)],
                networks := (networks (dockerd w))
                  (Name (cfg w) \<mapsto> \<lparr>nr_Name = Name (cfg w), nr_Driver = Driver (cfg w)\<rparr>)\<rparr>\<rparr>)"
    using createDockerNetwork_success [OF assms(1,4,5)] by blast
  show ?thesis
    unfolding ConfigureDocker_create_eq [where create = create, OF i _ c, simplified]
    using assms(3) by auto
qed

lemma ConfigureDocker_present:
  assumes "Name (cfg w) \<noteq> []" "inspect_fault (dockerd w) = None"
      and "networks (dockerd w) (Name (cfg w)) \<noteq> None"
  shows "\<exists>w1. ConfigureDocker create None w = (None, w1) \<and> dockerd w1 = dockerd w
           \<and> Name (cfg w1) = Name (cfg w)"
proof -
  from assms(3) obtain r where "networks (dockerd w) (Name (cfg w)) = Some r" by blast
  then have "NetworkInspect (dockerd w) (Name (cfg w)) = (r, None)"
    using assms(1,2) by (simp add: NetworkInspect_def)
  from ConfigureDocker_found_eq [OF this] show ?thesis
    by (auto simp: update_network_def Let_def)
qed

text \<open>
  C6.  \<open>ConfigureDocker\<close> inspects the configured network name first.  Called twice in
  succession on a runtime that answers without faults and does not have the network yet,
  both calls succeed, the first performs one create call and the second none: its
  inspect finds the network.
\<close>

theorem ConfigureDocker_idempotent:
  assumes "platform_create create"
      and "Name (cfg w) \<noteq> []" "inspect_fault (dockerd w) = None" "create_fault (dockerd w) = None"
      and "networks (dockerd w) (Name (cfg w)) = None"
      and "ConfigureDocker create None w = (err1, w1)"
      and "ConfigureDocker create None w1 = (err2, w2)"
  shows "err1 = None \<and> err2 = None
       \<and> length (create_calls (dockerd w1)) = length (create_calls (dockerd w)) + 1
       \<and> create_calls (dockerd w2) = create_calls (dockerd w1)
       \<and> (\<exists>r. NetworkInspect (dockerd w1) (Name (cfg w1)) = (r, None))"
proof -
  from ConfigureDocker_first_call [OF assms(1-5)] assms(6)
  obtain req where 1: "err1 = None"
      "create_calls (dockerd w1) = create_calls (dockerd w) @ [(Name (cfg w), req)]"
      "networks (dockerd w1) (Name (cfg w)) \<noteq> None" "Name (cfg w1) = Name (cfg w)"
      "inspect_fault (dockerd w1) = None"
    by auto
  from ConfigureDocker_present [of w1 create] 1 assms(2,7)
  have 2: "err2 = None" "dockerd w2 = dockerd w1" by auto
  have 3: "\<exists>r. NetworkInspect (dockerd w1) (Name (cfg w1)) = (r, None)"
    using 1 assms(2) by (auto simp: NetworkInspect_def)
  from 1 2 3 show ?thesis by simp
qed

theorem ConfigureDocker_idempotent_witness:
  "Name (cfg fresh_world) \<noteq> []
   \<and> networks (dockerd fresh_world) (Name (cfg fresh_world)) = None
   \<and> create_calls (dockerd fresh_world) = []
   \<and> fst (ConfigureDocker createDockerNetwork_linux None fresh_world) = None
   \<and> fst (ConfigureDocker createDockerNetwork_linux None
            (snd (ConfigureDocker createDockerNetwork_linux None fresh_world))) = None
   \<and> length (create_calls (dockerd (snd (ConfigureDocker createDockerNetwork_linux None
            (snd (ConfigureDocker createDockerNetwork_linux None fresh_world)))))) = 1"
proof -
  have p: "platform_create createDockerNetwork_linux"
    by (simp add: platform_create_def)
  have h: "Name (cfg fresh_world) \<noteq> []" "inspect_fault (dockerd fresh_world) = None"
    "create_fault (dockerd fresh_world) = None"
    "networks (dockerd fresh_world) (Name (cfg fresh_world)) = None"
    "create_calls (dockerd fresh_world) = []"
    by (simp_all add: fresh_world_def default_network_def fresh_daemon_def)
  from ConfigureDocker_idempotent [OF p h(1-4) surjective_pairing surjective_pairing] h
  show ?thesis by simp
qed

subsection \<open>Resource limits\<close>

text \<open>
  C8, as stated, fails for the build of \<open>AsContainerResources\<close> that fills four fields
  only: on the scenario's limits its swap field is the zero value, not the unlimited
  sentinel, and its CPU period is the zero value, not 100,000.
\<close>

theorem AsContainerResources_windows_counterexample:
  "res_MemorySwap (AsContainerResources_windows scenario_limits) \<noteq> swap_unlimited
   \<and> res_CPUPeriod (AsContainerResources_windows scenario_limits) \<noteq> 100000"
  by (simp add: AsContainerResources_windows_def swap_unlimited_def)

text \<open>
  C8, amended.  For limits with 512 MB of memory, swap \<open>-1\<close> and 150 percent CPU, the
  build of settings_linux.go produces memory bytes 512,000,000 (also as the memory
  reservation), swap set to the unlimited sentinel, CPU quota 150,000 and CPU period
  100,000; the other build produces memory bytes 512,000,000 and CPU quota 150,000 and
  leaves swap and CPU period out (zero values).  In general, for both builds, memory
  bytes = MB \<open>\<times>\<close> 1,000,000 and quota = percent \<open>\<times>\<close> 1,000, which is percent/100 \<open>\<times>\<close> the
  period 100,000; for settings_linux.go a negative swap maps to the unlimited sentinel, a
  swap \<open>\<ge> 0\<close> to memory bytes + swap MB \<open>\<times>\<close> 1,000,000, and the period is always 100,000.
\<close>

theorem AsContainerResources_scenario:
  "(MemoryLimit l = 512 \<and> Swap l = - 1 \<and> CpuLimit l = 150 \<longrightarrow>
        res_Memory (AsContainerResources_linux pids l) = 512000000
      \<and> res_MemoryReservation (AsContainerResources_linux pids l) = 512000000
      \<and> res_MemorySwap (AsContainerResources_linux pids l) = swap_unlimited
      \<and> res_CPUQuota (AsContainerResources_linux pids l) = 150000
      \<and> res_CPUPeriod (AsContainerResources_linux pids l) = 100000
      \<and> res_Memory (AsContainerResources_windows l) = 512000000
      \<and> res_CPUQuota (AsContainerResources_windows l) = 150000
      \<and> res_MemorySwap (AsContainerResources_windows l) = 0
      \<and> res_CPUPeriod (AsContainerResources_windows l) = 0)
   \<and> res_Memory (AsContainerResources_linux pids l) = MemoryLimit l * 1000000
   \<and> res_Memory (AsContainerResources_windows l) = MemoryLimit l * 1000000
   \<and> res_CPUQuota (AsContainerResources_linux pids l) = CpuLimit l * 1000
   \<and> res_CPUQuota (AsContainerResources_windows l) = CpuLimit l * 1000
   \<and> res_CPUQuota (AsContainerResources_linux pids l) * 100
        = CpuLimit l * res_CPUPeriod (AsContainerResources_linux pids l)
   \<and> res_CPUPeriod (AsContainerResources_linux pids l) = 100000
   \<and> (Swap l < 0 \<longrightarrow> res_MemorySwap (AsContainerResources_linux pids l) = swap_unlimited)
   \<and> (0 \<le> Swap l \<longrightarrow>
        res_MemorySwap (AsContainerResources_linux pids l)
          = MemoryLimit l * 1000000 + Swap l * 1000000)"
  by (simp add: AsContainerResources_linux_def AsContainerResources_windows_def
        BoundedMemoryLimit_def ConvertedSwap_def ConvertedCpuLimit_def wrap64_def)

theorem AsContainerResources_scenario_witness:
  "MemoryLimit scenario_limits = 512 \<and> Swap scenario_limits = - 1
   \<and> CpuLimit scenario_limits = 150
   \<and> res_Memory (AsContainerResources_linux 512 scenario_limits) = 512000000
   \<and> res_MemorySwap (AsContainerResources_linux 512 scenario_limits) = swap_unlimited
   \<and> res_CPUQuota (AsContainerResources_linux 512 scenario_limits) = 150000
   \<and> res_CPUPeriod (AsContainerResources_linux 512 scenario_limits) = 100000
   \<and> res_Memory (AsContainerResources_windows scenario_limits) = 512000000
   \<and> res_CPUQuota (AsContainerResources_windows scenario_limits) = 150000"
proof -
  have h: "MemoryLimit scenario_limits = 512 \<and> Swap scenario_limits = - 1
           \<and> CpuLimit scenario_limits = 150"
    by (simp add: scenario_limits_def)
  from h AsContainerResources_scenario [of scenario_limits 512]
  show ?thesis by blast
qed

subsection \<open>Uptime and the statistics poller\<close>

lemma go_quot_nonneg: "0 \<le> a \<Longrightarrow> 0 < b \<Longrightarrow> go_quot a b = a div b"
  by (cases "a = 0") (simp_all add: go_quot_def)

lemma poll_loop_published_bound:
  "length (published (poll_loop cm cc uptime ticks)) \<le> length (before_offline ticks)"
proof (induction ticks arbitrary: uptime)
  case Nil
  then show ?case by (simp add: before_offline_def)
next
  case (Cons t ts)
  then show ?case
    by (auto simp: before_offline_def Let_def split: option.splits decode_result.splits)
qed

lemma poll_loop_offline_tick:
  "published (poll_loop cm cc uptime (pre @ sample_tick v ProcessOfflineState # post))
     = published (poll_loop cm cc uptime pre)
   \<and> ended (poll_loop cm cc uptime (pre @ sample_tick v ProcessOfflineState # post)) \<noteq> Waiting"
proof (induction pre arbitrary: uptime)
  case Nil
  then show ?case by (simp add: sample_tick_def)
next
  case (Cons t ts)
  then show ?case
    by (auto simp: Let_def split: option.splits decode_result.splits)
qed

lemma poll_loop_all_samples:
  "\<forall>t \<in> set pre. ctx_done t = None \<and> (\<exists>v. decode t = Decoded v) \<and> st_load t \<noteq> ProcessOfflineState \<Longrightarrow>
   length (published (poll_loop cm cc uptime (pre @ sample_tick v ProcessOfflineState # post))) = length pre
   \<and> ended (poll_loop cm cc uptime (pre @ sample_tick v ProcessOfflineState # post)) = Returned None"
proof (induction pre arbitrary: uptime)
  case Nil
  then show ?case by (simp add: sample_tick_def)
next
  case (Cons t ts)
  then show ?case
    by (auto simp: Let_def split: option.splits decode_result.splits)
qed

text \<open>
  C9.  When the container inspect succeeds and reports the container as not running,
  \<open>Uptime\<close> returns 0 and no error.  When it is running and the start timestamp parses,
  the result is the time since that timestamp in milliseconds (the nanosecond difference
  divided by 1,000,000, while the difference fits a duration).  When the timestamp does
  not parse, \<open>Uptime\<close> returns the wrapped parse error, and this is not fatal: the poller
  logs it as a warning and polls on from an uptime of 0.
\<close>

theorem Uptime_cases:
  "(ins = Inr c \<and> \<not> Running c \<longrightarrow> Uptime ins parse now = Inr 0)
   \<and> (ins = Inr c \<and> Running c \<and> parse (StartedAt c) = Inr started \<longrightarrow>
        Uptime ins parse now = Inr (Milliseconds (time_Sub now started))
      \<and> (started \<le> now \<and> now - started < 2 ^ 63 \<longrightarrow>
           Uptime ins parse now = Inr ((now - started) div 1000000)))
   \<and> (ins = Inr c \<and> Running c \<and> parse (StartedAt c) = Inl err \<longrightarrow>
        Uptime ins parse now
          = Inl (Wrapped ''environment: failed to parse container start time'' err)
      \<and> (st0 \<noteq> ProcessOfflineState \<longrightarrow>
           pollResources cm cc st0 None ins parse now ticks
             = (poll_loop cm cc 0 ticks)
                 \<lparr>warnings :=
                    (''failed to calculate container uptime'',
                     Wrapped ''environment: failed to parse container start time'' err)
                    # warnings (poll_loop cm cc 0 ticks)\<rparr>))"
proof -
  have 1: "ins = Inr c \<and> \<not> Running c \<longrightarrow> Uptime ins parse now = Inr 0"
    by (simp add: Uptime_def)
  have 2: "ins = Inr c \<and> Running c \<and> parse (StartedAt c) = Inr started \<longrightarrow>
        Uptime ins parse now = Inr (Milliseconds (time_Sub now started))
      \<and> (started \<le> now \<and> now - started < 2 ^ 63 \<longrightarrow>
           Uptime ins parse now = Inr ((now - started) div 1000000))"
    by (simp add: Uptime_def Milliseconds_def time_Sub_def go_quot_nonneg)
  have 3: "ins = Inr c \<and> Running c \<and> parse (StartedAt c) = Inl err \<longrightarrow>
        Uptime ins parse now
          = Inl (Wrapped ''environment: failed to parse container start time'' err)
      \<and> (st0 \<noteq> ProcessOfflineState \<longrightarrow>
           pollResources cm cc st0 None ins parse now ticks
             = (poll_loop cm cc 0 ticks)
                 \<lparr>warnings :=
                    (''failed to calculate container uptime'',
                     Wrapped ''environment: failed to parse container start time'' err)
                    # warnings (poll_loop cm cc 0 ticks)\<rparr>)"
    by (simp add: Uptime_def pollResources_def Let_def)
  from 1 2 3 show ?thesis by blast
qed

theorem Uptime_cases_witness:
  "Uptime stopped_container parse_ok 3000000000 = Inr 0
   \<and> Uptime running_container parse_ok 3000000000 = Inr 2000
   \<and> Uptime running_container parse_fails 3000000000
       = Inl (Wrapped ''environment: failed to parse container start time''
                (ErrOther ''parsing time: cannot parse''))
   \<and> length (published (pollResources calculateDockerMemory_windows
        calculateDockerAbsoluteCpu_windows ProcessRunningState None running_container
        parse_fails 3000000000 stop_mid_stream)) = 1"
proof -
  have a: "stopped_container = Inr \<lparr>Running = False, StartedAt = ''0001-01-01T00:00:00Z''\<rparr>
           \<and> \<not> Running \<lparr>Running = False, StartedAt = ''0001-01-01T00:00:00Z''\<rparr>"
    by (simp add: stopped_container_def)
  have b: "running_container = Inr \<lparr>Running = True, StartedAt = ''0001-01-01T00:00:01Z''\<rparr>
           \<and> Running \<lparr>Running = True, StartedAt = ''0001-01-01T00:00:01Z''\<rparr>
           \<and> parse_ok (StartedAt \<lparr>Running = True, StartedAt = ''0001-01-01T00:00:01Z''\<rparr>)
               = Inr 1000000000"
    by (simp add: running_container_def parse_ok_def)
  have c: "running_container = Inr \<lparr>Running = True, StartedAt = ''0001-01-01T00:00:01Z''\<rparr>
           \<and> Running \<lparr>Running = True, StartedAt = ''0001-01-01T00:00:01Z''\<rparr>
           \<and> parse_fails (StartedAt \<lparr>Running = True, StartedAt = ''0001-01-01T00:00:01Z''\<rparr>)
               = Inl (ErrOther ''parsing time: cannot parse'')"
    by (simp add: running_container_def parse_fails_def)
  have d: "length (published (poll_loop calculateDockerMemory_windows
        calculateDockerAbsoluteCpu_windows 0 stop_mid_stream)) = 1"
    by (simp add: stop_mid_stream_def sample_tick_def Let_def)
  have e: "(1000000000::int) \<le> 3000000000 \<and> (3000000000::int) - 1000000000 < 2 ^ 63"
    by simp
  have k1: "Uptime stopped_container parse_ok 3000000000 = Inr 0"
    using a Uptime_cases [of stopped_container
      "\<lparr>Running = False, StartedAt = ''0001-01-01T00:00:00Z''\<rparr>" parse_ok 3000000000]
    by blast
  have k2: "Uptime running_container parse_ok 3000000000
              = Inr ((3000000000 - 1000000000) div 1000000)"
    using b e Uptime_cases [of running_container
      "\<lparr>Running = True, StartedAt = ''0001-01-01T00:00:01Z''\<rparr>" parse_ok 3000000000 1000000000]
    by blast
  have f: "ProcessRunningState \<noteq> ProcessOfflineState"
    by simp
  have k3: "Uptime running_container parse_fails 3000000000
       = Inl (Wrapped ''environment: failed to parse container start time''
                (ErrOther ''parsing time: cannot parse''))
     \<and> pollResources calculateDockerMemory_windows calculateDockerAbsoluteCpu_windows
          ProcessRunningState None running_container parse_fails 3000000000 stop_mid_stream
        = (poll_loop calculateDockerMemory_windows calculateDockerAbsoluteCpu_windows 0
             stop_mid_stream)
            \<lparr>warnings :=
               (''failed to calculate container uptime'',
                Wrapped ''environment: failed to parse container start time''
                  (ErrOther ''parsing time: cannot parse''))
               # warnings (poll_loop calculateDockerMemory_windows
                             calculateDockerAbsoluteCpu_windows 0 stop_mid_stream)\<rparr>"
    using c f Uptime_cases [of running_container
      "\<lparr>Running = True, StartedAt = ''0001-01-01T00:00:01Z''\<rparr>" parse_fails 3000000000 _
      "ErrOther ''parsing time: cannot parse''" ProcessRunningState
      calculateDockerMemory_windows calculateDockerAbsoluteCpu_windows stop_mid_stream]
    by blast
  from k1 k2 k3 d show ?thesis by simp
qed

text \<open>
  C5.  The poller publishes no sample once it has observed the offline state.  Started in
  the offline state it returns an error and publishes nothing.  Otherwise it publishes at
  most one sample per turn of the loop that comes before the first turn at which the
  loaded state is offline; at a turn that decodes a sample and then loads the offline
  state the loop returns without publishing, so a run through such a turn publishes
  exactly what the run up to that turn had published, and it publishes one sample for
  each earlier turn when every earlier turn decoded a sample in a state other than
  offline.
\<close>

theorem pollResources_offline:
  "(st0 = ProcessOfflineState \<longrightarrow>
        published (pollResources cm cc st0 stream ins parse now ticks) = []
      \<and> ended (pollResources cm cc st0 stream ins parse now ticks)
          = Returned (Some (ErrOther ''cannot enable resource polling on a stopped server'')))
   \<and> length (published (pollResources cm cc st0 stream ins parse now ticks))
        \<le> length (before_offline ticks)
   \<and> published (pollResources cm cc st0 stream ins parse now
                   (pre @ sample_tick v ProcessOfflineState # post))
        = published (pollResources cm cc st0 stream ins parse now pre)
   \<and> ended (pollResources cm cc st0 stream ins parse now
               (pre @ sample_tick v ProcessOfflineState # post)) \<noteq> Waiting
   \<and> (st0 \<noteq> ProcessOfflineState \<and> stream = None
        \<and> (\<forall>t \<in> set pre. ctx_done t = None \<and> (\<exists>v. decode t = Decoded v)
                \<and> st_load t \<noteq> ProcessOfflineState) \<longrightarrow>
        length (published (pollResources cm cc st0 stream ins parse now
                             (pre @ sample_tick v ProcessOfflineState # post))) = length pre
      \<and> ended (pollResources cm cc st0 stream ins parse now
                  (pre @ sample_tick v ProcessOfflineState # post)) = Returned None)"
proof -
  have 1: "st0 = ProcessOfflineState \<longrightarrow>
        published (pollResources cm cc st0 stream ins parse now ticks) = []
      \<and> ended (pollResources cm cc st0 stream ins parse now ticks)
          = Returned (Some (ErrOther ''cannot enable resource polling on a stopped server''))"
    by (simp add: pollResources_def)
  have 2: "length (published (pollResources cm cc st0 stream ins parse now ticks))
        \<le> length (before_offline ticks)"
    using poll_loop_published_bound [of cm cc _ ticks]
    by (simp add: pollResources_def Let_def split: option.splits sum.splits)
  have 3: "published (pollResources cm cc st0 stream ins parse now
                   (pre @ sample_tick v ProcessOfflineState # post))
        = published (pollResources cm cc st0 stream ins parse now pre)
      \<and> ended (pollResources cm cc st0 stream ins parse now
               (pre @ sample_tick v ProcessOfflineState # post)) \<noteq> Waiting"
    using poll_loop_offline_tick [of cm cc _ pre v post]
    by (simp add: pollResources_def Let_def split: option.splits sum.splits)
  have 4: "st0 \<noteq> ProcessOfflineState \<and> stream = None
        \<and> (\<forall>t \<in> set pre. ctx_done t = None \<and> (\<exists>v. decode t = Decoded v)
                \<and> st_load t \<noteq> ProcessOfflineState) \<longrightarrow>
        length (published (pollResources cm cc st0 stream ins parse now
                             (pre @ sample_tick v ProcessOfflineState # post))) = length pre
      \<and> ended (pollResources cm cc st0 stream ins parse now
                  (pre @ sample_tick v ProcessOfflineState # post)) = Returned None"
    using poll_loop_all_samples [of pre cm cc _ v post]
    by (simp add: pollResources_def Let_def split: option.splits sum.splits)
  from 1 2 3 4 show ?thesis by blast
qed

theorem pollResources_offline_witness:
  "stop_mid_stream
     = [sample_tick stalled_sample ProcessRunningState]
       @ sample_tick counter_reset_sample ProcessOfflineState
       # [sample_tick stalled_sample ProcessRunningState]
   \<and> length (published (pollResources calculateDockerMemory_windows
        calculateDockerAbsoluteCpu_windows ProcessRunningState None running_container
        parse_ok 3000000000 stop_mid_stream)) = 1
   \<and> ended (pollResources calculateDockerMemory_windows
        calculateDockerAbsoluteCpu_windows ProcessRunningState None running_container
        parse_ok 3000000000 stop_mid_stream) = Returned None
   \<and> published (pollResources calculateDockerMemory_windows
        calculateDockerAbsoluteCpu_windows ProcessOfflineState None running_container
        parse_ok 3000000000 stop_mid_stream) = []"
proof -
  have s: "stop_mid_stream
     = [sample_tick stalled_sample ProcessRunningState]
       @ sample_tick counter_reset_sample ProcessOfflineState
       # [sample_tick stalled_sample ProcessRunningState]"
    by (simp add: stop_mid_stream_def)
  have h: "ProcessRunningState \<noteq> ProcessOfflineState \<and> (None :: error option) = None
      \<and> (\<forall>t \<in> set [sample_tick stalled_sample ProcessRunningState].
            ctx_done t = None \<and> (\<exists>v. decode t = Decoded v)
            \<and> st_load t \<noteq> ProcessOfflineState)"
    by (simp add: sample_tick_def)
  have k: "length (published (pollResources calculateDockerMemory_windows
        calculateDockerAbsoluteCpu_windows ProcessRunningState None running_container
        parse_ok 3000000000
        ([sample_tick stalled_sample ProcessRunningState]
         @ sample_tick counter_reset_sample ProcessOfflineState
         # [sample_tick stalled_sample ProcessRunningState])))
      = length [sample_tick stalled_sample ProcessRunningState]
    \<and> ended (pollResources calculateDockerMemory_windows
        calculateDockerAbsoluteCpu_windows ProcessRunningState None running_container
        parse_ok 3000000000
        ([sample_tick stalled_sample ProcessRunningState]
         @ sample_tick counter_reset_sample ProcessOfflineState
         # [sample_tick stalled_sample ProcessRunningState])) = Returned None"
    using h pollResources_offline [of ProcessRunningState calculateDockerMemory_windows
         calculateDockerAbsoluteCpu_windows None running_container parse_ok 3000000000
         stop_mid_stream "[sample_tick stalled_sample ProcessRunningState]"
         counter_reset_sample "[sample_tick stalled_sample ProcessRunningState]"]
    by blast
  have z: "published (pollResources calculateDockerMemory_windows
        calculateDockerAbsoluteCpu_windows ProcessOfflineState None running_container
        parse_ok 3000000000 stop_mid_stream) = []"
    using pollResources_offline [of ProcessOfflineState calculateDockerMemory_windows
         calculateDockerAbsoluteCpu_windows None running_container parse_ok 3000000000
         stop_mid_stream "[]" counter_reset_sample "[]"]
    by blast
  from k z show ?thesis unfolding s by simp
qed

subsection \<open>The filesystem jail\<close>

lemma chown_walk_all:
  "(\<forall>q \<in> set (plain_entries p n). f q = None) \<Longrightarrow>
     walk False (chown_callback f) p n tr
       = (if IsSymlink n \<and> IsDir n then WSkipThis else WNil, tr @ plain_entries p n)"
  "(\<forall>q \<in> set (plain_children p cs). f q = None) \<Longrightarrow>
     walk_children False (chown_callback f) p cs tr = (WNil, tr @ plain_children p cs)"
proof (induction p n and p cs arbitrary: tr and tr rule: plain_entries_plain_children.induct)
  case (1 p sz)
  then show ?case by (simp add: walk.simps chown_callback_def)
next
  case (2 p sz d t)
  then show ?case by (simp add: walk.simps chown_callback_def)
next
  case (3 p cs)
  then show ?case by (simp add: walk.simps chown_callback_def entries_of_def)
next
  case (4 p)
  then show ?case by simp
next
  case (5 p c cs)
  then show ?case by (auto split: if_splits)
qed

lemma chown_walk_prefix:
  "\<exists>ys. snd (walk False (chown_callback f) p n tr) = tr @ ys
       \<and> ((\<forall>e. fst (walk False (chown_callback f) p n tr) \<noteq> WErr e) \<longrightarrow> ys = plain_entries p n)
       \<and> (\<exists>zs. plain_entries p n = ys @ zs)"
  "\<exists>ys. snd (walk_children False (chown_callback f) p cs tr) = tr @ ys
       \<and> ((\<forall>e. fst (walk_children False (chown_callback f) p cs tr) \<noteq> WErr e) \<longrightarrow>
             ys = plain_children p cs)
       \<and> (\<exists>zs. plain_children p cs = ys @ zs)"
proof (induction p n and p cs arbitrary: tr and tr rule: plain_entries_plain_children.induct)
  case (1 p sz tr)
  show ?case
    by (cases "f p") (simp_all add: walk.simps chown_callback_def)
next
  case (2 p sz d t tr)
  show ?case by (simp add: walk.simps chown_callback_def)
next
  case (3 p cs tr)
  show ?case
  proof (cases "f p")
    case None
    have k: "walk False (chown_callback f) p (Dir cs) tr
               = walk_children False (chown_callback f) p cs (tr @ [p])"
      using None by (simp add: walk.simps chown_callback_def entries_of_def)
    from 3 [of "tr @ [p]"] obtain ys zs where
      y1: "snd (walk_children False (chown_callback f) p cs (tr @ [p])) = (tr @ [p]) @ ys"
      and y2: "(\<forall>e. fst (walk_children False (chown_callback f) p cs (tr @ [p])) \<noteq> WErr e) \<longrightarrow>
           ys = plain_children p cs"
      and y3: "plain_children p cs = ys @ zs"
      by blast
    show ?thesis
      unfolding k
    proof (rule exI [of _ "p # ys"], intro conjI impI)
      show "snd (walk_children False (chown_callback f) p cs (tr @ [p])) = tr @ p # ys"
        using y1 by simp
      show "p # ys = plain_entries p (Dir cs)"
        if "\<forall>e. fst (walk_children False (chown_callback f) p cs (tr @ [p])) \<noteq> WErr e"
        using y2 that by simp
      show "\<exists>zs. plain_entries p (Dir cs) = (p # ys) @ zs"
        using y3 by simp
    qed
  next
    case (Some e)
    have k: "walk False (chown_callback f) p (Dir cs) tr = (WErr e, tr @ [p])"
      using Some by (simp add: walk.simps chown_callback_def)
    show ?thesis
      unfolding k by (rule exI [of _ "[p]"]) simp
  qed
next
  case (4 p tr)
  show ?case by simp
next
  case (5 p c cs tr)
  obtain r tr1 where w: "walk False (chown_callback f) (p @ [fst c]) (snd c) tr = (r, tr1)"
    by (cases "walk False (chown_callback f) (p @ [fst c]) (snd c) tr") blast
  from 5(1) [of tr] obtain ys zs where
    ys1: "tr1 = tr @ ys"
    and ys2: "(\<forall>e. r \<noteq> WErr e) \<longrightarrow> ys = plain_entries (p @ [fst c]) (snd c)"
    and ys3: "plain_entries (p @ [fst c]) (snd c) = ys @ zs"
    unfolding w fst_conv snd_conv by blast
  show ?case
  proof (cases "\<exists>e. r = WErr e")
    case True
    then obtain e where e: "r = WErr e" by blast
    have k: "walk_children False (chown_callback f) p (c # cs) tr = (WErr e, tr1)"
      using w e by simp
    show ?thesis
      unfolding k
    proof (rule exI [of _ ys], intro conjI impI)
      show "snd (WErr e, tr1) = tr @ ys" using ys1 by simp
      show "ys = plain_children p (c # cs)" if "\<forall>e'. fst (WErr e, tr1) \<noteq> WErr e'"
        using that by simp
      show "\<exists>zs. plain_children p (c # cs) = ys @ zs"
        using ys3 by simp
    qed
  next
    case False
    then have k: "walk_children False (chown_callback f) p (c # cs) tr
                = walk_children False (chown_callback f) p cs tr1"
      using w by (cases r) simp_all
    from 5(2) [of tr1] obtain ys' zs' where
      y1: "snd (walk_children False (chown_callback f) p cs tr1) = tr1 @ ys'"
      and y2: "(\<forall>e. fst (walk_children False (chown_callback f) p cs tr1) \<noteq> WErr e) \<longrightarrow>
           ys' = plain_children p cs"
      and y3: "plain_children p cs = ys' @ zs'"
      by blast
    from False ys2 have f: "plain_entries (p @ [fst c]) (snd c) = ys" by simp
    show ?thesis
      unfolding k
    proof (rule exI [of _ "ys @ ys'"], intro conjI impI)
      show "snd (walk_children False (chown_callback f) p cs tr1) = tr @ ys @ ys'"
        using y1 ys1 by simp
      show "ys @ ys' = plain_children p (c # cs)"
        if "\<forall>e. fst (walk_children False (chown_callback f) p cs tr1) \<noteq> WErr e"
        using y2 that f by simp
      show "\<exists>zs. plain_children p (c # cs) = (ys @ ys') @ zs"
        using y3 f by simp
    qed
  qed
qed

lemma plain_entries_below:
  "q \<in> set (plain_entries p n) \<Longrightarrow> \<exists>r. q = p @ r"
  "q \<in> set (plain_children p cs) \<Longrightarrow> \<exists>c \<in> set cs. \<exists>r. q = p @ fst c # r \<and> q \<in> set (plain_entries (p @ [fst c]) (snd c))"
  by (induction p n and p cs rule: plain_entries_plain_children.induct) fastforce+

lemma link_paths_below:
  "l \<in> set (link_paths p n) \<Longrightarrow> \<exists>r. l = p @ r"
  "l \<in> set (link_children p cs) \<Longrightarrow> \<exists>c \<in> set cs. \<exists>r. l = p @ fst c # r \<and> l \<in> set (link_paths (p @ [fst c]) (snd c))"
  by (induction p n and p cs rule: link_paths_link_children.induct) fastforce+

lemma distinct_names_child:
  "distinct (map fst cs) \<Longrightarrow> c1 \<in> set cs \<Longrightarrow> c2 \<in> set cs \<Longrightarrow> fst c1 = fst c2 \<Longrightarrow> c1 = c2"
  by (induction cs) (auto simp: image_iff)

lemma links_untouched:
  "distinct_names n \<Longrightarrow> l \<in> set (link_paths p n) \<Longrightarrow> q \<in> set (plain_entries p n) \<Longrightarrow> q \<noteq> l @ r"
proof (induction n arbitrary: p)
  case (File x)
  then show ?case by simp
next
  case (Symlink x1 x2 x3)
  then show ?case by simp
next
  case (Dir cs)
  from Dir.prems(2) have "l \<in> set (link_children p cs)" by simp
  from link_paths_below(2) [OF this]
  obtain c2 r2 where c2: "c2 \<in> set cs" "l = p @ fst c2 # r2"
    "l \<in> set (link_paths (p @ [fst c2]) (snd c2))"
    by blast
  show ?case
  proof (cases "q = p")
    case True
    show ?thesis
    proof
      assume "q = l @ r"
      then have "length q \<ge> length l" by simp
      moreover have "length l > length p" using c2(2) by simp
      ultimately show False using True by simp
    qed
  next
    case False
    with Dir.prems(3) have "q \<in> set (plain_children p cs)" by simp
    from plain_entries_below(2) [OF this]
    obtain c1 r1 where c1: "c1 \<in> set cs" "q = p @ fst c1 # r1"
      "q \<in> set (plain_entries (p @ [fst c1]) (snd c1))"
      by blast
    show ?thesis
    proof
      assume a: "q = l @ r"
      have "p @ fst c1 # r1 = p @ fst c2 # (r2 @ r)"
        using a c1(2) c2(2) by simp
      then have "fst c1 = fst c2" by simp
      moreover have "distinct (map fst cs)" using Dir.prems(1) by simp
      ultimately have e: "c1 = c2" using distinct_names_child c1(1) c2(1) by blast
      have s: "snd c2 \<in> Basic_BNFs.snds c2" by (cases c2) simp
      have d: "distinct_names (snd c2)" using Dir.prems(1) c2(1) by simp
      have "q \<in> set (plain_entries (p @ [fst c2]) (snd c2))" using c1(3) e by simp
      from Dir.IH [OF c2(1) s d c2(3) this] a show False by simp
    qed
  qed
qed

lemma chown_Walk:
  assumes "fs cleaned = Some n"
  shows "\<exists>ys. snd (Walk False (chown_callback f) fs cleaned tr) = tr @ ys
           \<and> (\<exists>zs. plain_entries cleaned n = ys @ zs)
           \<and> (entries_of n \<noteq> None \<and> (\<forall>q \<in> set (plain_entries cleaned n). f q = None) \<longrightarrow>
                ys = plain_entries cleaned n
              \<and> (IsDir n \<longrightarrow> fst (Walk False (chown_callback f) fs cleaned tr) = None))"
proof (cases "IsDir n")
  case False
  then have k: "Walk False (chown_callback f) fs cleaned tr
                  = (Some (ErrOther ''cannot Walk non-directory''), tr)"
    using assms by (simp add: Walk_def)
  have "entries_of n \<noteq> None \<Longrightarrow> plain_entries cleaned n = []"
    using False by (cases n) (simp_all add: entries_of_def)
  with False show ?thesis
    unfolding k by (intro exI [of _ "[]"]) auto
next
  case True
  obtain r tr1 where w: "walk False (chown_callback f) cleaned n tr = (r, tr1)"
    by (cases "walk False (chown_callback f) cleaned n tr") blast
  have k: "Walk False (chown_callback f) fs cleaned tr
             = (case r of WErr err \<Rightarrow> Some err | _ \<Rightarrow> None, tr1)"
    using assms True w by (simp add: Walk_def split: walk_result.splits)
  from chown_walk_prefix(1) [of f cleaned n tr] obtain ys zs where
    y1: "tr1 = tr @ ys" and y3: "plain_entries cleaned n = ys @ zs"
    unfolding w snd_conv by blast
  show ?thesis
    unfolding k
  proof (rule exI [of _ ys], intro conjI impI)
    show "snd (case r of WErr err \<Rightarrow> Some err | _ \<Rightarrow> None, tr1) = tr @ ys"
      using y1 by simp
    show "\<exists>zs. plain_entries cleaned n = ys @ zs"
      using y3 by blast
    assume a: "entries_of n \<noteq> None \<and> (\<forall>q \<in> set (plain_entries cleaned n). f q = None)"
    then have "walk False (chown_callback f) cleaned n tr
         = (if IsSymlink n \<and> IsDir n then WSkipThis else WNil, tr @ plain_entries cleaned n)"
      using chown_walk_all(1) by blast
    with w have e: "r = (if IsSymlink n \<and> IsDir n then WSkipThis else WNil)"
      "tr1 = tr @ plain_entries cleaned n"
      by simp_all
    show "ys = plain_entries cleaned n"
      using e(2) y1 by simp
    show "fst (case r of WErr err \<Rightarrow> Some err | _ \<Rightarrow> None, tr1) = None"
      using e(1) by simp
  qed
qed

text \<open>
  C2.  When the path is safe, the file system is not a test double and the owner's
  identifiers parse, \<open>Chown\<close> applies ownership to the root entry first, and returns at
  once, with that one call made, when the root is not a directory.  Otherwise it walks the
  tree: the calls of the walk follow, in order, the entries that are no symbolic links and
  do not lie behind one, so (names being distinct within each directory) no call is made
  on a symbolic link or on anything below one; and when every call succeeds, the calls of
  the walk are exactly those entries, each of them.
\<close>

theorem Chown_ownership:
  assumes "SafePath pth = Inr cleaned" "\<not> isTest"
      and "StringToSid uid = Inr uSid" "StringToSid gid = Inr gSid"
      and "fs cleaned = Some n"
      and "Chown fs SafePath isTest StringToSid uid gid setOwner pth = (err, called)"
  shows "called \<noteq> [] \<and> hd called = cleaned
       \<and> (\<not> stat_IsDir fs cleaned \<longrightarrow>
             called = [cleaned] \<and> (setOwner uSid gSid cleaned = None \<longrightarrow> err = None))
       \<and> (\<exists>zs. plain_entries cleaned n = tl called @ zs)
       \<and> (distinct_names n \<longrightarrow>
             (\<forall>l \<in> set (link_paths cleaned n). \<forall>q \<in> set (tl called). \<forall>r. q \<noteq> l @ r))
       \<and> (stat_IsDir fs cleaned
             \<and> (\<forall>q \<in> set (cleaned # plain_entries cleaned n). setOwner uSid gSid q = None) \<longrightarrow>
             tl called = plain_entries cleaned n \<and> (IsDir n \<longrightarrow> err = None))"
proof -
  from chown_Walk [where fs = fs and f = "setOwner uSid gSid" and tr = "[cleaned]", OF assms(5)] obtain ys zs where
    y1: "snd (Walk False (chown_callback (setOwner uSid gSid)) fs cleaned [cleaned]) = [cleaned] @ ys"
    and y2: "plain_entries cleaned n = ys @ zs"
    and y3: "entries_of n \<noteq> None \<and> (\<forall>q \<in> set (plain_entries cleaned n). setOwner uSid gSid q = None) \<longrightarrow>
                ys = plain_entries cleaned n
              \<and> (IsDir n \<longrightarrow> fst (Walk False (chown_callback (setOwner uSid gSid)) fs cleaned [cleaned]) = None)"
    by blast
  have c: "called = [cleaned] \<or> (setOwner uSid gSid cleaned = None \<and> stat_IsDir fs cleaned
             \<and> called = cleaned # ys
             \<and> err = WrapIf (fst (Walk False (chown_callback (setOwner uSid gSid)) fs cleaned [cleaned]))
                       ''server/filesystem: chown: failed to chown during walk function'')"
    using assms(1-4,6) y1
    by (auto simp: Chown_def Let_def split: option.splits if_splits prod.splits)
  have n: "\<not> stat_IsDir fs cleaned \<longrightarrow>
             called = [cleaned] \<and> (setOwner uSid gSid cleaned = None \<longrightarrow> err = None)"
    using assms(1-4,6)
    by (auto simp: Chown_def Let_def split: option.splits if_splits prod.splits)
  have t: "\<exists>zs. plain_entries cleaned n = tl called @ zs"
    using c y2 by auto
  then have s: "set (tl called) \<subseteq> set (plain_entries cleaned n)"
    by auto
  have l: "distinct_names n \<longrightarrow>
             (\<forall>l \<in> set (link_paths cleaned n). \<forall>q \<in> set (tl called). \<forall>r. q \<noteq> l @ r)"
    using s links_untouched by blast
  have a: "stat_IsDir fs cleaned
             \<and> (\<forall>q \<in> set (cleaned # plain_entries cleaned n). setOwner uSid gSid q = None) \<longrightarrow>
             tl called = plain_entries cleaned n \<and> (IsDir n \<longrightarrow> err = None)"
  proof
    assume h: "stat_IsDir fs cleaned
             \<and> (\<forall>q \<in> set (cleaned # plain_entries cleaned n). setOwner uSid gSid q = None)"
    then have e: "entries_of n \<noteq> None" using assms(5) by (simp add: stat_IsDir_def)
    from h have o: "setOwner uSid gSid cleaned = None" by simp
    have "called = cleaned # ys
             \<and> err = WrapIf (fst (Walk False (chown_callback (setOwner uSid gSid)) fs cleaned [cleaned]))
                       ''server/filesystem: chown: failed to chown during walk function''"
      using assms(1-4,6) y1 h o
      by (auto simp: Chown_def Let_def split: option.splits if_splits prod.splits)
    with y3 e h show "tl called = plain_entries cleaned n \<and> (IsDir n \<longrightarrow> err = None)"
      by (simp add: WrapIf_def)
  qed
  have f: "called \<noteq> [] \<and> hd called = cleaned"
    using c by auto
  from f n t l a show ?thesis by blast
qed

theorem Chown_ownership_witness:
  "safe_ok [''srv''] = Inr [''srv''] \<and> data_fs [''srv''] = Some data_tree
   \<and> stat_IsDir data_fs [''srv'']
   \<and> Chown data_fs safe_ok False sid_ok ''S-1-5-21-1'' ''S-1-5-21-2'' owner_ok [''srv'']
       = (None, [[''srv''], [''srv''], [''srv'', ''a.txt''], [''srv'', ''sub''],
                 [''srv'', ''sub'', ''b'']])
   \<and> link_paths [''srv''] data_tree = [[''srv'', ''dlink''], [''srv'', ''flink'']]
   \<and> plain_entries [''srv''] data_tree
       = tl [[''srv''], [''srv''], [''srv'', ''a.txt''], [''srv'', ''sub''],
             [''srv'', ''sub'', ''b'']]"
proof -
  have a: "safe_ok [''srv''] = Inr [''srv'']" by (simp add: safe_ok_def)
  have b: "\<not> False" by simp
  have c: "sid_ok ''S-1-5-21-1'' = Inr ''S-1-5-21-1''" "sid_ok ''S-1-5-21-2'' = Inr ''S-1-5-21-2''"
    by (simp_all add: sid_ok_def)
  have d: "data_fs [''srv''] = Some data_tree" by (simp add: data_fs_def)
  have e: "Chown data_fs safe_ok False sid_ok ''S-1-5-21-1'' ''S-1-5-21-2'' owner_ok [''srv'']
       = (None, [[''srv''], [''srv''], [''srv'', ''a.txt''], [''srv'', ''sub''],
                 [''srv'', ''sub'', ''b'']])"
    by (simp add: Chown_def Walk_def walk.simps chown_callback_def stat_IsDir_def
          entries_of_def WrapIf_def data_fs_def data_tree_def safe_ok_def sid_ok_def
          owner_ok_def)
  have f: "stat_IsDir data_fs [''srv'']" "distinct_names data_tree"
    "link_paths [''srv''] data_tree = [[''srv'', ''dlink''], [''srv'', ''flink'']]"
    by (simp_all add: stat_IsDir_def entries_of_def data_fs_def data_tree_def)
  have g: "\<forall>q \<in> set ([''srv''] # plain_entries [''srv''] data_tree).
             owner_ok ''S-1-5-21-1'' ''S-1-5-21-2'' q = None"
    by (simp add: owner_ok_def)
  from Chown_ownership
         [where SafePath = safe_ok and StringToSid = sid_ok and fs = data_fs
            and setOwner = owner_ok, OF a b c d e] f g
  have k: "tl [[''srv''], [''srv''], [''srv'', ''a.txt''], [''srv'', ''sub''],
             [''srv'', ''sub'', ''b'']] = plain_entries [''srv''] data_tree
     \<and> (\<forall>l \<in> set (link_paths [''srv''] data_tree).
         \<forall>q \<in> set (tl [[''srv''], [''srv''], [''srv'', ''a.txt''], [''srv'', ''sub''],
                         [''srv'', ''sub'', ''b'']]). \<forall>r. q \<noteq> l @ r)"
    by blast
  from k have k1: "plain_entries [''srv''] data_tree
       = tl [[''srv''], [''srv''], [''srv'', ''a.txt''], [''srv'', ''sub''],
             [''srv'', ''sub'', ''b'']]"
    by (rule conjunct1 [THEN sym])
  from a d e f k1 show ?thesis by blast
qed

lemma size_walk:
  "(\<forall>l \<in> set (link_paths p n). \<forall>e. S l = Inl e \<longrightarrow> IsErrorCode_PathResolution e) \<Longrightarrow>
     \<exists>r. walk False (size_callback S) p n s
            = (r, s\<lparr>size_sum := size_sum s + jail_size S p n, checked := checked s @ link_paths p n\<rparr>)
        \<and> (\<forall>e. r \<noteq> WErr e)"
  "(\<forall>l \<in> set (link_children p cs). \<forall>e. S l = Inl e \<longrightarrow> IsErrorCode_PathResolution e) \<Longrightarrow>
     walk_children False (size_callback S) p cs s
       = (WNil, s\<lparr>size_sum := size_sum s + jail_size_children S p cs,
                   checked := checked s @ link_children p cs\<rparr>)"
proof (induction p n and p cs arbitrary: s and s rule: link_paths_link_children.induct)
  case (1 p sz s)
  show ?case by (simp add: walk.simps size_callback_def)
next
  case (2 p sz d t s)
  then show ?case
    by (cases "S p") (auto simp: walk.simps size_callback_def Let_def)
next
  case (3 p cs s)
  then show ?case by (simp add: walk.simps size_callback_def entries_of_def)
next
  case (4 p s)
  show ?case by simp
next
  case (5 p c cs s)
  from 5(3) have a: "\<forall>l \<in> set (link_paths (p @ [fst c]) (snd c)). \<forall>e. S l = Inl e \<longrightarrow> IsErrorCode_PathResolution e"
    and b: "\<forall>l \<in> set (link_children p cs). \<forall>e. S l = Inl e \<longrightarrow> IsErrorCode_PathResolution e"
    by auto
  from 5(1) [OF a, of s] obtain r where
    r: "walk False (size_callback S) (p @ [fst c]) (snd c) s
          = (r, s\<lparr>size_sum := size_sum s + jail_size S (p @ [fst c]) (snd c),
                  checked := checked s @ link_paths (p @ [fst c]) (snd c)\<rparr>)"
       "\<forall>e. r \<noteq> WErr e"
    by blast
  from r(2) have k: "walk_children False (size_callback S) p (c # cs) s
       = walk_children False (size_callback S) p cs
           (s\<lparr>size_sum := size_sum s + jail_size S (p @ [fst c]) (snd c),
              checked := checked s @ link_paths (p @ [fst c]) (snd c)\<rparr>)"
    using r(1) by (cases r) simp_all
  show ?case
    unfolding k 5(2) [OF b] by (simp add: add.assoc)
qed

lemma DirectorySize_linux_eq:
  assumes "S dir = Inr d" "fs d = Some n" "IsDir n"
      and "\<forall>l \<in> set (link_paths d n). \<forall>e. S l = Inl e \<longrightarrow> IsErrorCode_PathResolution e"
  shows "DirectorySize_linux fs S dir = ((jail_size S d n, None), dir # link_paths d n)"
proof -
  from size_walk(1) [OF assms(4), of "\<lparr>size_sum = 0, checked = [dir]\<rparr>"] obtain r where
    r: "walk False (size_callback S) d n \<lparr>size_sum = 0, checked = [dir]\<rparr>
          = (r, \<lparr>size_sum = jail_size S d n, checked = dir # link_paths d n\<rparr>)"
       "\<forall>e. r \<noteq> WErr e"
    by auto
  have "Walk False (size_callback S) fs d \<lparr>size_sum = 0, checked = [dir]\<rparr>
          = (None, \<lparr>size_sum = jail_size S d n, checked = dir # link_paths d n\<rparr>)"
    using assms(2,3) r by (cases r) (simp_all add: Walk_def)
  then show ?thesis
    using assms(1) by (simp add: DirectorySize_linux_def WrapIf_def)
qed

lemma DirectorySize_windows_scenario:
  assumes "S dir = Inr d" "fs d = Some n"
      and "n = Dir [(f, File 100), (l, Symlink sz False t)]
           \<or> n = Dir [(l, Symlink sz False t), (f, File 100)]"
  shows "DirectorySize_windows fs S dir = ((100 + sz, None), [dir])"
  using assms
  by (auto simp: DirectorySize_windows_def filepath_Walk_def fwalk.simps size_walkfn_def
        entries_of_def WrapIf_def)

text \<open>
  C1, as stated, fails for the build of \<open>DirectorySize\<close> on \<open>filepath.Walk\<close>: on the
  scenario's root it meets the symbolic link but never hands it to the jail's check; the
  only path checked is the root itself.
\<close>

theorem DirectorySize_windows_counterexample:
  "snd (DirectorySize_windows escape_fs escape_SafePath [''srv'']) = [[''srv'']]
   \<and> [''srv'', ''escape''] \<notin> set (snd (DirectorySize_windows escape_fs escape_SafePath [''srv'']))"
  by (simp add: DirectorySize_windows_def filepath_Walk_def fwalk.simps size_walkfn_def
        entries_of_def WrapIf_def escape_fs_def escape_tree_def escape_SafePath_def)

text \<open>
  C1, amended.  The \<open>DirectorySize\<close> of disk_space_linux.go, on a root with one 100-byte
  file and one symbolic link that the jail's check rejects as a path escape, returns
  exactly 100 and no error: every symbolic link met during the walk is handed to the
  check first, a link that fails it with the path resolution kind is skipped together
  with everything behind it without failing the call, and the result is the size of the
  files plus the size of the links that pass the check.  The other build of
  \<open>DirectorySize\<close> makes no check on the entries: it does not enter a symbolic link and
  adds the link's own size, so on that root it returns 100 plus the size of the link
  itself (which is 0 where the system reports none) and no error.
\<close>

theorem DirectorySize_escaping_link:
  assumes "S dir = Inr d" "fs d = Some n"
  shows "(IsDir n
          \<and> (\<forall>l \<in> set (link_paths d n). \<forall>e. S l = Inl e \<longrightarrow> IsErrorCode_PathResolution e) \<longrightarrow>
            DirectorySize_linux fs S dir = ((jail_size S d n, None), dir # link_paths d n))
       \<and> ((n = Dir [(f, File 100), (l, Symlink sz db t)]
            \<or> n = Dir [(l, Symlink sz db t), (f, File 100)])
          \<and> S (d @ [l]) = Inl e \<and> IsErrorCode_PathResolution e \<longrightarrow>
            DirectorySize_linux fs S dir = ((100, None), [dir, d @ [l]]))
       \<and> ((n = Dir [(f, File 100), (l, Symlink sz False t)]
            \<or> n = Dir [(l, Symlink sz False t), (f, File 100)]) \<longrightarrow>
            DirectorySize_windows fs S dir = ((100 + sz, None), [dir]))"
proof -
  have 1: "IsDir n
          \<and> (\<forall>l \<in> set (link_paths d n). \<forall>e. S l = Inl e \<longrightarrow> IsErrorCode_PathResolution e) \<longrightarrow>
            DirectorySize_linux fs S dir = ((jail_size S d n, None), dir # link_paths d n)"
    using DirectorySize_linux_eq [where S = S and fs = fs, OF assms] by blast
  have 2: "(n = Dir [(f, File 100), (l, Symlink sz db t)]
            \<or> n = Dir [(l, Symlink sz db t), (f, File 100)])
          \<and> S (d @ [l]) = Inl e \<and> IsErrorCode_PathResolution e \<longrightarrow>
            DirectorySize_linux fs S dir = ((100, None), [dir, d @ [l]])"
  proof
    assume h: "(n = Dir [(f, File 100), (l, Symlink sz db t)]
            \<or> n = Dir [(l, Symlink sz db t), (f, File 100)])
          \<and> S (d @ [l]) = Inl e \<and> IsErrorCode_PathResolution e"
    then have a: "IsDir n" "link_paths d n = [d @ [l]]" "jail_size S d n = 100"
      by auto
    with h have "\<forall>l \<in> set (link_paths d n). \<forall>e. S l = Inl e \<longrightarrow> IsErrorCode_PathResolution e"
      by auto
    from DirectorySize_linux_eq [where S = S and fs = fs, OF assms a(1) this] a
    show "DirectorySize_linux fs S dir = ((100, None), [dir, d @ [l]])" by simp
  qed
  have 3: "(n = Dir [(f, File 100), (l, Symlink sz False t)]
            \<or> n = Dir [(l, Symlink sz False t), (f, File 100)]) \<longrightarrow>
            DirectorySize_windows fs S dir = ((100 + sz, None), [dir])"
    using DirectorySize_windows_scenario [where S = S and fs = fs, OF assms] by blast
  from 1 2 3 show ?thesis by blast
qed

theorem DirectorySize_escaping_link_witness:
  "escape_SafePath [''srv''] = Inr [''srv'']
   \<and> escape_fs [''srv''] = Some escape_tree
   \<and> escape_SafePath ([''srv''] @ [''escape'']) = Inl ErrPathResolution
   \<and> DirectorySize_linux escape_fs escape_SafePath [''srv'']
       = ((100, None), [[''srv''], [''srv'', ''escape'']])
   \<and> DirectorySize_windows escape_fs escape_SafePath [''srv''] = ((100, None), [[''srv'']])"
proof -
  have a: "escape_SafePath [''srv''] = Inr [''srv'']"
    by (simp add: escape_SafePath_def)
  have b: "escape_fs [''srv''] = Some escape_tree"
    by (simp add: escape_fs_def)
  have c: "(escape_tree = Dir [(''server.jar'', File 100),
              (''escape'', Symlink 0 False (Some (Dir [(''shadow'', File 4096)])))]
            \<or> escape_tree = Dir [(''escape'', Symlink 0 False (Some (Dir [(''shadow'', File 4096)]))),
              (''server.jar'', File 100)])
          \<and> escape_SafePath ([''srv''] @ [''escape'']) = Inl ErrPathResolution
          \<and> IsErrorCode_PathResolution ErrPathResolution"
    by (simp add: escape_tree_def escape_SafePath_def)
  from DirectorySize_escaping_link
         [where S = escape_SafePath and fs = escape_fs and f = "''server.jar''"
            and l = "''escape''" and sz = 0 and db = False
            and t = "Some (Dir [(''shadow'', File 4096)])" and e = ErrPathResolution,
          OF a b] c
  have "DirectorySize_linux escape_fs escape_SafePath [''srv'']
          = ((100, None), [[''srv''], [''srv''] @ [''escape'']])
      \<and> DirectorySize_windows escape_fs escape_SafePath [''srv'']
          = ((100 + 0, None), [[''srv'']])"
    by blast
  with a b c show ?thesis by simp
qed

end
